theory Spec2Isabelle
  imports Main "HOL-Library.AList"
begin

section \<open>Data model of the form builder (src/src/index.tsx)\<close>

text \<open>
  JavaScript values as they occur in field defaults, in the answer record
  \<^verbatim>\<open>previewData\<close> and in the template context. Numbers are modelled as
  integers and strings as UTF-8 byte sequences. \<^verbatim>\<open>JObj\<close> is a plain object,
  given by its own properties, and \<^verbatim>\<open>JArr\<close> an array, given by its elements; both
  inherit from the built-in prototypes. \<^verbatim>\<open>JFun\<close> is a built-in function, named by
  where it is found, and the last two values are the objects \<^verbatim>\<open>Object.prototype\<close>
  and \<^verbatim>\<open>Array.prototype\<close> themselves, which the key \<^verbatim>\<open>__proto__\<close> reaches.
\<close>

datatype jsval =
    JUndefined
  | JNull
  | JBool bool
  | JNum int
  | JStr string
  | JArr "jsval list"
  | JObj "(string \<times> jsval) list"
  | JFun string
  | JObjectPrototype
  | JArrayPrototype

subsection \<open>The built-in prototypes\<close>

text \<open>The string-keyed properties of \<^verbatim>\<open>Object.prototype\<close> (ECMAScript, with the
  legacy accessors of Annex B that browsers have): functions, and the accessor
  \<^verbatim>\<open>__proto__\<close>.\<close>

definition objectPrototypeFunctions :: "string list" where
  "objectPrototypeFunctions =
     [''constructor'', ''hasOwnProperty'', ''isPrototypeOf'', ''propertyIsEnumerable'',
      ''toLocaleString'', ''toString'', ''valueOf'', ''__defineGetter__'',
      ''__defineSetter__'', ''__lookupGetter__'', ''__lookupSetter__'']"

text \<open>The string-keyed methods of \<^verbatim>\<open>Array.prototype\<close> (ECMAScript 2023).\<close>

definition arrayPrototypeFunctions :: "string list" where
  "arrayPrototypeFunctions =
     [''at'', ''concat'', ''constructor'', ''copyWithin'', ''entries'', ''every'', ''fill'',
      ''filter'', ''find'', ''findIndex'', ''findLast'', ''findLastIndex'', ''flat'',
      ''flatMap'', ''forEach'', ''includes'', ''indexOf'', ''join'', ''keys'',
      ''lastIndexOf'', ''map'', ''pop'', ''push'', ''reduce'', ''reduceRight'', ''reverse'',
      ''shift'', ''slice'', ''some'', ''sort'', ''splice'', ''toLocaleString'',
      ''toReversed'', ''toSorted'', ''toSpliced'', ''toString'', ''unshift'', ''values'',
      ''with'']"

text \<open>What a plain object inherits under a key: \<^verbatim>\<open>None\<close> when the key is not found
  on \<^verbatim>\<open>Object.prototype\<close>. The getter of \<^verbatim>\<open>__proto__\<close> gives the prototype of the
  object it is read from.\<close>

definition objectInherited :: "jsval \<Rightarrow> string \<Rightarrow> jsval option" where
  "objectInherited protoOfReceiver key =
     (if key = ''__proto__'' then Some protoOfReceiver
      else if key \<in> set objectPrototypeFunctions then Some (JFun (''Object.prototype.'' @ key))
      else None)"

text \<open>What an array inherits under a key: \<^verbatim>\<open>Array.prototype\<close> comes first in the
  chain.\<close>

definition arrayInherited :: "jsval \<Rightarrow> string \<Rightarrow> jsval option" where
  "arrayInherited protoOfReceiver key =
     (if key \<in> set arrayPrototypeFunctions then Some (JFun (''Array.prototype.'' @ key))
      else objectInherited protoOfReceiver key)"

text \<open>\<^verbatim>\<open>Array.isArray(v)\<close> and the elements: \<^verbatim>\<open>Array.prototype\<close> is itself an
  array, of length zero.\<close>

definition arrayElems :: "jsval \<Rightarrow> jsval list option" where
  "arrayElems v = (case v of JArr xs \<Rightarrow> Some xs | JArrayPrototype \<Rightarrow> Some [] | _ \<Rightarrow> None)"

subsection \<open>Fields, rules and steps\<close>

datatype fieldType =
  Title | Text | Textarea | Select | Radio | Checkbox | File | Readonly

record formField =
  f_id :: string
  f_type :: fieldType
  f_title :: string
  f_required :: bool
  f_placeholder :: "string option"
  f_options :: "string list option"
  f_defaultValue :: jsval
  f_readOnly :: "bool option"
  f_widget :: "string option"
  f_dependsOn :: "string option"
  f_showWhen :: "string option"
  f_acceptedFileTypes :: "string list option"
  f_maxFileSize :: "nat option"
  f_multiple :: "bool option"

record navCondition =
  c_value :: string
  c_nextStepName :: string

record navigationRule =
  r_fieldId :: string
  r_conditions :: "navCondition list"
  r_defaultStepName :: "string option"

record step =
  s_id :: string
  s_name :: string
  s_description :: string
  s_fields :: "formField list"
  s_actionName :: string
  s_navigationRule :: "navigationRule option"
  s_summaryCheckExpression :: string

text \<open>The answer record \<^verbatim>\<open>previewData: Record<string, unknown>\<close>, a plain object
  given by its own properties (it starts as \<^verbatim>\<open>{}\<close> and grows by spreading and a
  computed key, so its prototype stays \<^verbatim>\<open>Object.prototype\<close>). Reading a key that is
  not its own finds what the object inherits, and \<^verbatim>\<open>undefined\<close> when there is
  nothing.\<close>

type_synonym answers = "string \<rightharpoonup> jsval"

definition pd_get :: "answers \<Rightarrow> string \<Rightarrow> jsval" where
  "pd_get pd k =
     (case pd k of
        Some v \<Rightarrow> v
      | None \<Rightarrow> (case objectInherited JObjectPrototype k of
                   Some v \<Rightarrow> v
                 | None \<Rightarrow> JUndefined))"

text \<open>\<^verbatim>\<open>const currentStep = parsedSteps[currentStepIndex] || null\<close>\<close>

definition currentStep :: "step list \<Rightarrow> nat \<Rightarrow> step option" where
  "currentStep parsedSteps i = (if i < length parsedSteps then Some (parsedSteps ! i) else None)"

text \<open>\<^verbatim>\<open>currentStep?.fields.find((f) => f.id === x)\<close>\<close>

definition findField :: "step option \<Rightarrow> string \<Rightarrow> formField option" where
  "findField cs x =
     (case cs of None \<Rightarrow> None | Some s \<Rightarrow> find (\<lambda>f. f_id f = x) (s_fields s))"

text \<open>An optional string is falsy when it is absent or empty.\<close>

definition str_truthy :: "string option \<Rightarrow> bool" where
  "str_truthy x = (case x of None \<Rightarrow> False | Some s \<Rightarrow> s \<noteq> [])"

definition opt_str :: "string option \<Rightarrow> string" where
  "opt_str x = (case x of None \<Rightarrow> [] | Some s \<Rightarrow> s)"

text \<open>\<^verbatim>\<open>Array.isArray(v) ? v : []\<close>\<close>

definition selectedValues :: "jsval \<Rightarrow> jsval list" where
  "selectedValues v = (case arrayElems v of Some xs \<Rightarrow> xs | None \<Rightarrow> [])"

text \<open>\<^verbatim>\<open>xs.includes(s)\<close> for a string \<^verbatim>\<open>s\<close>: some element is that string.\<close>

definition arr_includes :: "jsval list \<Rightarrow> string \<Rightarrow> bool" where
  "arr_includes xs s = (JStr s \<in> set xs)"

section \<open>Field visibility\<close>

definition isFieldVisible :: "step option \<Rightarrow> answers \<Rightarrow> formField \<Rightarrow> bool" where
  "isFieldVisible cs previewData field =
     (if \<not> str_truthy (f_dependsOn field) \<or> \<not> str_truthy (f_showWhen field) then True
      else
        let dependentValue = pd_get previewData (opt_str (f_dependsOn field));
            showWhen = opt_str (f_showWhen field)
        in case findField cs (opt_str (f_dependsOn field)) of
             None \<Rightarrow> False
           | Some parentField \<Rightarrow>
               if dependentValue = JUndefined \<or> dependentValue = JNull
                  \<or> dependentValue = JStr [] then False
               else if f_type parentField = Radio \<or> f_type parentField = Select
                 then dependentValue = JStr showWhen
               else if f_type parentField = Checkbox
                 then arr_includes (selectedValues dependentValue) showWhen
               else dependentValue = JStr showWhen)"

section \<open>Runtime and authoring validation\<close>

record validation =
  v_valid :: bool
  v_errors :: "string list"

abbreviation dq :: char where "dq \<equiv> CHR 0x22"

text \<open>\<^verbatim>\<open>value === undefined || value === null || value === "" ||
  (Array.isArray(value) && value.length === 0)\<close>\<close>

definition isMissing :: "jsval \<Rightarrow> bool" where
  "isMissing v = (v = JUndefined \<or> v = JNull \<or> v = JStr [] \<or> arrayElems v = Some [])"

definition requiredMessage :: "formField \<Rightarrow> string" where
  "requiredMessage field = dq # f_title field @ dq # '' is required''"

text \<open>\<^verbatim>\<open>!field.title?.trim()\<close>: the title consists of white space and line
  terminators only. In UTF-8 these are the bytes 09 to 0D and 20, and the encodings of
  U+00A0, U+1680, U+2000 to U+200A, U+2028, U+2029, U+202F, U+205F, U+3000 and U+FEFF.\<close>

fun isBlank :: "string \<Rightarrow> bool" where
  "isBlank [] = True"
| "isBlank (c # cs) =
     (if c \<in> set [CHR 0x09, CHR 0x0A, CHR 0x0B, CHR 0x0C, CHR 0x0D, CHR 0x20] then isBlank cs
      else if c = CHR 0xC2 then
        (case cs of d # r \<Rightarrow> d = CHR 0xA0 \<and> isBlank r | _ \<Rightarrow> False)
      else if c = CHR 0xE1 then
        (case cs of d # e # r \<Rightarrow> d = CHR 0x9A \<and> e = CHR 0x80 \<and> isBlank r | _ \<Rightarrow> False)
      else if c = CHR 0xE2 then
        (case cs of
           d # e # r \<Rightarrow>
             ((d = CHR 0x80 \<and> e \<in> set [CHR 0x80, CHR 0x81, CHR 0x82, CHR 0x83, CHR 0x84,
                  CHR 0x85, CHR 0x86, CHR 0x87, CHR 0x88, CHR 0x89, CHR 0x8A, CHR 0xA8,
                  CHR 0xA9, CHR 0xAF])
              \<or> (d = CHR 0x81 \<and> e = CHR 0x9F)) \<and> isBlank r
         | _ \<Rightarrow> False)
      else if c = CHR 0xE3 then
        (case cs of d # e # r \<Rightarrow> d = CHR 0x80 \<and> e = CHR 0x80 \<and> isBlank r | _ \<Rightarrow> False)
      else if c = CHR 0xEF then
        (case cs of d # e # r \<Rightarrow> d = CHR 0xBB \<and> e = CHR 0xBF \<and> isBlank r | _ \<Rightarrow> False)
      else False)"

definition previewCheck :: "step option \<Rightarrow> answers \<Rightarrow> string list \<Rightarrow> formField \<Rightarrow> string list" where
  "previewCheck cs previewData errors field =
     (if f_required field \<and> f_type field \<noteq> Title \<and> isFieldVisible cs previewData field then
        (if isMissing (pd_get previewData (f_id field))
         then errors @ [requiredMessage field] else errors)
      else errors)"

definition authoringCheck :: "string list \<Rightarrow> formField \<Rightarrow> string list" where
  "authoringCheck errors field =
     (let e1 = (if isBlank (f_title field)
                then errors @ [''Field '' @ dq # f_id field @ dq # '' needs a title''] else errors);
          e2 = (if f_type field \<in> {Select, Radio, Checkbox}
                   \<and> (case f_options field of None \<Rightarrow> True | Some os \<Rightarrow> os = [])
                then e1 @ [dq # f_title field @ dq # '' needs options''] else e1);
          e3 = (if f_type field = File
                   \<and> (case f_maxFileSize field of None \<Rightarrow> False | Some m \<Rightarrow> m \<noteq> 0 \<and> m > 100)
                then e2 @ [dq # f_title field @ dq # '' file size limit too high''] else e2)
      in e3)"

text \<open>The two \<^verbatim>\<open>forEach\<close> loops push onto \<^verbatim>\<open>errors\<close>: a left fold.\<close>

definition validateCurrentStep :: "bool \<Rightarrow> step option \<Rightarrow> answers \<Rightarrow> validation" where
  "validateCurrentStep previewMode cs previewData =
     (case cs of
        None \<Rightarrow> \<lparr>v_valid = True, v_errors = []\<rparr>
      | Some s \<Rightarrow>
          let errors = (if previewMode
                        then foldl (previewCheck cs previewData) [] (s_fields s)
                        else foldl authoringCheck [] (s_fields s))
          in \<lparr>v_valid = (length errors = 0), v_errors = errors\<rparr>)"

section \<open>Next-step evaluation\<close>

text \<open>The status line \<^verbatim>\<open>saveStatus\<close>; each constructor stands for one message of the
  source. The timers that clear it after three seconds are not modelled.\<close>

datatype saveStatus =
    StatusNone
  | ValidationErrors nat
  | FormComplete
  | CompleteRequiredFields
  | FormEnded
  | TargetNotFound string

record navState =
  n_currentStepIndex :: nat
  n_previewData :: answers
  n_saveStatus :: saveStatus

text \<open>\<^verbatim>\<open>rule.defaultStepName || "continue"\<close>\<close>

definition defaultTarget :: "navigationRule \<Rightarrow> string" where
  "defaultTarget rule =
     (if str_truthy (r_defaultStepName rule) then opt_str (r_defaultStepName rule)
      else ''continue'')"

text \<open>Lines 1366 to 1378: the first condition that matches decides.\<close>

definition resolveTarget :: "navigationRule \<Rightarrow> formField \<Rightarrow> jsval \<Rightarrow> string" where
  "resolveTarget rule field fieldValue =
     (if f_type field = Checkbox then
        (case find (\<lambda>cond. arr_includes (selectedValues fieldValue) (c_value cond))
                (r_conditions rule) of
           Some matchedCondition \<Rightarrow> c_nextStepName matchedCondition
         | None \<Rightarrow> defaultTarget rule)
      else
        (case find (\<lambda>cond. JStr (c_value cond) = fieldValue) (r_conditions rule) of
           Some matchedCondition \<Rightarrow> c_nextStepName matchedCondition
         | None \<Rightarrow> defaultTarget rule))"

text \<open>What \<^verbatim>\<open>executeNavigation\<close> decides before it touches the state: the guards of
  lines 1322 to 1364 and the target of lines 1366 to 1378.\<close>

datatype navDecision =
    NoCurrentStep
  | Invalid nat
  | NoRule
  | Incomplete
  | Target string

definition decideNavigation :: "bool \<Rightarrow> step option \<Rightarrow> answers \<Rightarrow> navDecision" where
  "decideNavigation previewMode cs pd =
     (case cs of
        None \<Rightarrow> NoCurrentStep
      | Some s \<Rightarrow>
          let validation = validateCurrentStep previewMode cs pd in
          if \<not> v_valid validation then Invalid (length (v_errors validation))
          else case s_navigationRule s of
            None \<Rightarrow> NoRule
          | Some rule \<Rightarrow>
              let fieldValue = pd_get pd (r_fieldId rule) in
              (case find (\<lambda>f. f_id f = r_fieldId rule) (s_fields s) of
                 None \<Rightarrow> Incomplete
               | Some field \<Rightarrow>
                   if fieldValue = JUndefined \<or> fieldValue = JStr []
                      \<or> arrayElems fieldValue = Some []
                   then Incomplete
                   else Target (resolveTarget rule field fieldValue)))"

fun findIndex :: "('a \<Rightarrow> bool) \<Rightarrow> 'a list \<Rightarrow> nat option" where
  "findIndex P [] = None"
| "findIndex P (x # xs) =
     (if P x then Some 0 else map_option Suc (findIndex P xs))"

definition advance :: "step list \<Rightarrow> navState \<Rightarrow> navState" where
  "advance parsedSteps st =
     (if int (n_currentStepIndex st) < int (length parsedSteps) - 1
      then st\<lparr>n_currentStepIndex := n_currentStepIndex st + 1, n_previewData := Map.empty\<rparr>
      else st\<lparr>n_saveStatus := FormComplete\<rparr>)"

text \<open>Lines 1380 to 1406. The step list is not empty here: a current step exists.\<close>

definition goToTarget :: "step list \<Rightarrow> navState \<Rightarrow> string \<Rightarrow> navState" where
  "goToTarget parsedSteps st targetStep =
     (if targetStep = ''continue'' then advance parsedSteps st
      else if targetStep = ''end'' then st\<lparr>n_saveStatus := FormEnded\<rparr>
      else if targetStep = ''skip''
        then st\<lparr>n_currentStepIndex := length parsedSteps - 1, n_previewData := Map.empty\<rparr>
      else (case findIndex (\<lambda>s. s_name s = targetStep) parsedSteps of
              Some targetStepIndex \<Rightarrow>
                st\<lparr>n_currentStepIndex := targetStepIndex, n_previewData := Map.empty\<rparr>
            | None \<Rightarrow> st\<lparr>n_saveStatus := TargetNotFound targetStep\<rparr>))"

definition executeNavigation :: "bool \<Rightarrow> step list \<Rightarrow> navState \<Rightarrow> navState" where
  "executeNavigation previewMode parsedSteps st =
     (case decideNavigation previewMode
             (currentStep parsedSteps (n_currentStepIndex st)) (n_previewData st) of
        NoCurrentStep \<Rightarrow> st
      | Invalid n \<Rightarrow> st\<lparr>n_saveStatus := ValidationErrors n\<rparr>
      | NoRule \<Rightarrow> advance parsedSteps st
      | Incomplete \<Rightarrow> st\<lparr>n_saveStatus := CompleteRequiredFields\<rparr>
      | Target targetStep \<Rightarrow> goToTarget parsedSteps st targetStep)"

section \<open>Default answers\<close>

text \<open>Objects used as dictionaries are lists of their own properties in the order in
  which JavaScript lists them: the keys that are array indices first, in ascending order,
  then the other keys in the order of their creation.\<close>

definition isDigit :: "char \<Rightarrow> bool" where
  "isDigit c = (c \<in> set ''0123456789'')"

definition digitValue :: "char \<Rightarrow> nat" where
  "digitValue c = of_char c - 48"

text \<open>Numbers written in decimal with no leading zero compare by length, then digit by
  digit.\<close>

fun digitsLess :: "string \<Rightarrow> string \<Rightarrow> bool" where
  "digitsLess (a # as) (b # bs) = (digitValue a < digitValue b \<or> (a = b \<and> digitsLess as bs))"
| "digitsLess _ _ = False"

definition indexLess :: "string \<Rightarrow> string \<Rightarrow> bool" where
  "indexLess a b = (length a < length b \<or> (length a = length b \<and> digitsLess a b))"

text \<open>An array index as a property key: decimal digits with no leading zero, below
  \<^verbatim>\<open>2^32 - 1\<close>.\<close>

definition isIndexKey :: "string \<Rightarrow> bool" where
  "isIndexKey key =
     (key \<noteq> [] \<and> list_all isDigit key \<and> (length key = 1 \<or> hd key \<noteq> CHR ''0'')
      \<and> indexLess key ''4294967295'')"

definition indexOfKey :: "string \<Rightarrow> nat option" where
  "indexOfKey key =
     (if isIndexKey key then Some (foldl (\<lambda>n c. 10 * n + digitValue c) 0 key) else None)"

fun insertIndexKey :: "string \<Rightarrow> 'v \<Rightarrow> (string \<times> 'v) list \<Rightarrow> (string \<times> 'v) list" where
  "insertIndexKey k v [] = [(k, v)]"
| "insertIndexKey k v ((k', v') # rest) =
     (if isIndexKey k' \<and> indexLess k' k then (k', v') # insertIndexKey k v rest
      else (k, v) # (k', v') # rest)"

text \<open>Creating or replacing an own property.\<close>

definition ownSet :: "string \<Rightarrow> 'v \<Rightarrow> (string \<times> 'v) list \<Rightarrow> (string \<times> 'v) list" where
  "ownSet k v props =
     (if k \<in> fst ` set props then AList.update k v props
      else if isIndexKey k then insertIndexKey k v props
      else props @ [(k, v)])"

text \<open>\<^verbatim>\<open>obj[k] = v\<close> on a dictionary whose values are objects created by the compiler
  (\<^verbatim>\<open>jsonSchema.properties\<close>, \<^verbatim>\<open>uiSchema\<close>): the key \<^verbatim>\<open>__proto__\<close> reaches the
  setter inherited from \<^verbatim>\<open>Object.prototype\<close>, which replaces the prototype and
  creates no own property; every other key is created or replaced.\<close>

definition assignProp :: "string \<Rightarrow> 'v \<Rightarrow> (string \<times> 'v) list \<Rightarrow> (string \<times> 'v) list" where
  "assignProp k v props = (if k = ''__proto__'' then props else ownSet k v props)"

text \<open>\<^verbatim>\<open>formData[k] = v\<close>, where \<^verbatim>\<open>v\<close> is any value. The state is the own
  properties and whether an assignment to \<^verbatim>\<open>__proto__\<close> still reaches the inherited
  setter. The setter replaces the prototype when \<^verbatim>\<open>v\<close> is an object or null and does
  nothing otherwise. It is out of reach once the prototype is null, or is an object with
  an own property \<^verbatim>\<open>__proto__\<close>; then the assignment creates an own property, as it
  does for every other key.\<close>

definition formAssign :: "string \<Rightarrow> jsval \<Rightarrow> (string \<times> jsval) list \<times> bool \<Rightarrow> (string \<times> jsval) list \<times> bool" where
  "formAssign k v st =
     (if k = ''__proto__'' \<and> k \<notin> fst ` set (fst st) \<and> snd st then
        (case v of
           JNull \<Rightarrow> (fst st, False)
         | JObj props \<Rightarrow> (fst st, ''__proto__'' \<notin> fst ` set props)
         | JArr xs \<Rightarrow> (fst st, True)
         | JFun name \<Rightarrow> (fst st, True)
         | JObjectPrototype \<Rightarrow> (fst st, True)
         | JArrayPrototype \<Rightarrow> (fst st, True)
         | _ \<Rightarrow> st)
      else (ownSet k v (fst st), snd st))"

definition emptyDefault :: "formField \<Rightarrow> jsval" where
  "emptyDefault field =
     (case f_type field of
        Checkbox \<Rightarrow> JArr []
      | File \<Rightarrow> (if f_multiple field = Some True then JArr [] else JNull)
      | _ \<Rightarrow> JStr [])"

definition formDataStep :: "(string \<times> jsval) list \<times> bool \<Rightarrow> formField \<Rightarrow> (string \<times> jsval) list \<times> bool" where
  "formDataStep formData field =
     (if f_type field = Title then formData
      else if f_defaultValue field \<noteq> JUndefined \<and> f_defaultValue field \<noteq> JNull
        then formAssign (f_id field) (f_defaultValue field) formData
      else formAssign (f_id field) (emptyDefault field) formData)"

text \<open>The result is the own properties of \<^verbatim>\<open>formData\<close>, which is what its
  serialisation shows.\<close>

definition generateFormData :: "formField list \<Rightarrow> (string \<times> jsval) list" where
  "generateFormData fs = fst (foldl formDataStep ([], True) fs)"

section \<open>Navigation expression builder\<close>

abbreviation sq :: char where "sq \<equiv> CHR 0x27"

text \<open>\<^verbatim>\<open>Array.prototype.join\<close> on strings.\<close>

fun join :: "string \<Rightarrow> string list \<Rightarrow> string" where
  "join sep [] = []"
| "join sep [x] = x"
| "join sep (x # y # ys) = x @ sep @ join sep (y # ys)"

definition includesClause :: "string \<Rightarrow> navCondition \<Rightarrow> string" where
  "includesClause fieldId cond =
     ''formData.'' @ fieldId @ ''.includes('' @ [sq] @ c_value cond @ [sq] @ '') ? ''
       @ [sq] @ c_nextStepName cond @ [sq]"

definition equalsClause :: "string \<Rightarrow> navCondition \<Rightarrow> string" where
  "equalsClause fieldId cond =
     ''formData.'' @ fieldId @ '' === '' @ [sq] @ c_value cond @ [sq] @ '' ? ''
       @ [sq] @ c_nextStepName cond @ [sq]"

definition continueLiteral :: string where
  "continueLiteral = [sq] @ ''continue'' @ [sq]"

definition convertToExpression :: "step option \<Rightarrow> navigationRule \<Rightarrow> string" where
  "convertToExpression cs rule =
     (if r_fieldId rule = [] \<or> length (r_conditions rule) = 0 then continueLiteral
      else case findField cs (r_fieldId rule) of
        None \<Rightarrow> continueLiteral
      | Some field \<Rightarrow>
          if f_type field = Checkbox then
            join '' : '' (map (includesClause (r_fieldId rule)) (r_conditions rule))
              @ '' : '' @ [sq] @ defaultTarget rule @ [sq]
          else
            join '' : '' (map (equalsClause (r_fieldId rule)) (r_conditions rule))
              @ '' : '' @ [sq] @ defaultTarget rule @ [sq])"

section \<open>Schema compiler\<close>

datatype js_error = TypeError

definition getDefaultWidget :: "fieldType \<Rightarrow> string" where
  "getDefaultWidget t =
     (case t of
        Text \<Rightarrow> ''text'' | Textarea \<Rightarrow> ''textarea'' | Select \<Rightarrow> ''select''
      | Radio \<Rightarrow> ''radio'' | Checkbox \<Rightarrow> ''checkboxes'' | File \<Rightarrow> ''file''
      | Readonly \<Rightarrow> ''textarea'' | Title \<Rightarrow> ''text'')"

text \<open>Decimal rendering of a number inside a template literal.\<close>

function showNat :: "nat \<Rightarrow> string" where
  "showNat n =
     (if n < 10 then [''0123456789'' ! n]
      else showNat (n div 10) @ [''0123456789'' ! (n mod 10)])"
  by pat_completeness auto
termination
  by (relation "measure id") auto

record jsonProperty =
  p_title :: string
  p_type :: string
  p_items :: "(string \<times> string list) option"
  p_uniqueItems :: "bool option"
  p_enum :: "string list option"
  p_format :: "string option"
  p_description :: "string option"
  p_default :: "jsval option"
  p_readOnly :: "bool option"

record jsonSchema =
  js_type :: string
  js_description :: string
  js_properties :: "(string \<times> jsonProperty) list"
  js_required :: "string list"

datatype uiOptions =
    ChoiceOptions "bool option" "(string \<times> string) list"
  | RowsOptions nat
  | FileOptions string bool

record uiConfig =
  ui_widget :: string
  ui_placeholder :: "string option"
  ui_readonly :: "bool option"
  ui_options :: "uiOptions option"

text \<open>\<^verbatim>\<open>uiSchema\<close> is one object: the keys \<^verbatim>\<open>"ui:order"\<close> and
  \<^verbatim>\<open>"ui:submitButtonOptions"\<close> live beside the field ids.\<close>

datatype uiEntry =
    UiOrder "string list"
  | UiSubmit string bool
  | UiField uiConfig

type_synonym uiSchema = "(string \<times> uiEntry) list"

record actionSchema =
  a_actionName :: string
  a_summaryCheckExpression :: string
  a_nextFlowDeterminationExpression :: string

record schemas =
  sc_jsonSchema :: jsonSchema
  sc_uiSchema :: uiSchema
  sc_formData :: "(string \<times> jsval) list"
  sc_actionSchema :: actionSchema

definition isReadOnly :: "formField \<Rightarrow> bool" where
  "isReadOnly field = (f_readOnly field = Some True \<or> f_type field = Readonly)"

definition optionList :: "formField \<Rightarrow> string list" where
  "optionList field = (case f_options field of None \<Rightarrow> [] | Some os \<Rightarrow> os)"

definition makeProperty :: "formField \<Rightarrow> jsonProperty" where
  "makeProperty field =
     (let p0 = \<lparr>p_title = f_title field,
                p_type = (if f_type field = Checkbox then ''array'' else ''string''),
                p_items = None, p_uniqueItems = None, p_enum = None, p_format = None,
                p_description = None, p_default = None, p_readOnly = None\<rparr>;
          p1 = (if f_type field = Checkbox
                  then p0\<lparr>p_items := Some (''string'', optionList field),
                          p_uniqueItems := Some True\<rparr>
                else if f_type field \<in> {Radio, Select}
                  then p0\<lparr>p_enum := Some (optionList field)\<rparr>
                else if f_type field = File
                  then p0\<lparr>p_format := Some ''data-url'',
                          p_description := Some (''Max size: ''
                            @ showNat (case f_maxFileSize field of
                                         None \<Rightarrow> 10 | Some m \<Rightarrow> if m = 0 then 10 else m)
                            @ ''MB'')\<rparr>
                else p0);
          p2 = (if f_defaultValue field \<noteq> JUndefined \<and> f_type field \<noteq> Readonly
                then p1\<lparr>p_default := Some (f_defaultValue field)\<rparr> else p1);
          p3 = (if isReadOnly field then p2\<lparr>p_readOnly := Some True\<rparr> else p2)
      in p3)"

definition enumOptions :: "formField \<Rightarrow> (string \<times> string) list" where
  "enumOptions field = map (\<lambda>opt. (opt, opt)) (optionList field)"

definition acceptOf :: "formField \<Rightarrow> string" where
  "acceptOf field =
     (case f_acceptedFileTypes field of
        None \<Rightarrow> ''*/*''
      | Some ts \<Rightarrow> if join '','' ts = [] then ''*/*'' else join '','' ts)"

definition makeUiConfig :: "formField \<Rightarrow> uiConfig" where
  "makeUiConfig field =
     (let u0 = \<lparr>ui_widget = getDefaultWidget (f_type field), ui_placeholder = None,
                ui_readonly = None, ui_options = None\<rparr>;
          u1 = (if str_truthy (f_placeholder field)
                then u0\<lparr>ui_placeholder := f_placeholder field\<rparr> else u0);
          u2 = (if isReadOnly field then u1\<lparr>ui_readonly := Some True\<rparr> else u1);
          u3 = (if f_type field = Radio
                  then u2\<lparr>ui_widget := ''radio'',
                          ui_options := Some (ChoiceOptions (Some False) (enumOptions field))\<rparr>
                else if f_type field = Checkbox
                  then u2\<lparr>ui_widget := ''checkboxes'',
                          ui_options := Some (ChoiceOptions (Some False) (enumOptions field))\<rparr>
                else if f_type field = Select
                  then u2\<lparr>ui_widget := ''select'',
                          ui_options := Some (ChoiceOptions None
                            (([], ''Choose an option...'') # enumOptions field))\<rparr>
                else if f_type field = Textarea
                  then u2\<lparr>ui_widget := ''textarea'', ui_options := Some (RowsOptions 4)\<rparr>
                else if f_type field = File
                  then u2\<lparr>ui_widget := ''file'',
                          ui_options := Some (FileOptions (acceptOf field)
                                                (f_multiple field = Some True))\<rparr>
                else u2)
      in u3)"

text \<open>\<^verbatim>\<open>uiSchema[field.id] = uiConfig; uiSchema["ui:order"].push(field.id)\<close>: the
  push is a method call on whatever the key holds after the assignment, and raises a
  TypeError when that is no longer the array.\<close>

definition uiStep :: "uiSchema \<Rightarrow> formField \<Rightarrow> js_error + uiSchema" where
  "uiStep ui field =
     (let ui1 = assignProp (f_id field) (UiField (makeUiConfig field)) ui in
      case map_of ui1 ''ui:order'' of
        Some (UiOrder order) \<Rightarrow> Inr (AList.update ''ui:order'' (UiOrder (order @ [f_id field])) ui1)
      | _ \<Rightarrow> Inl TypeError)"

text \<open>The body of the \<^verbatim>\<open>forEach\<close> over the step's fields, on the two objects it
  fills.\<close>

fun compileFields :: "formField list \<Rightarrow> jsonSchema \<times> uiSchema \<Rightarrow> js_error + jsonSchema \<times> uiSchema" where
  "compileFields [] acc = Inr acc"
| "compileFields (field # rest) (js, ui) =
     (if f_type field = Title then compileFields rest (js, ui)
      else
        let js1 = js\<lparr>js_properties := assignProp (f_id field) (makeProperty field) (js_properties js)\<rparr>;
            js2 = (if f_required field then js1\<lparr>js_required := js_required js1 @ [f_id field]\<rparr> else js1)
        in case uiStep ui field of
             Inl e \<Rightarrow> Inl e
           | Inr ui2 \<Rightarrow> compileFields rest (js2, ui2))"

definition initialUiSchema :: uiSchema where
  "initialUiSchema = [(''ui:order'', UiOrder []), (''ui:submitButtonOptions'', UiSubmit ''Continue'' False)]"

text \<open>The result is \<^verbatim>\<open>None\<close> for the four empty objects returned when there is no
  current step.\<close>

definition generateAllSchemas :: "step option \<Rightarrow> js_error + schemas option" where
  "generateAllSchemas cs =
     (case cs of
        None \<Rightarrow> Inr None
      | Some s \<Rightarrow>
          let jsonSchema = \<lparr>js_type = ''object'', js_description = s_description s,
                            js_properties = [], js_required = []\<rparr>;
              formData = generateFormData (s_fields s)
          in case compileFields (s_fields s) (jsonSchema, initialUiSchema) of
               Inl e \<Rightarrow> Inl e
             | Inr (js, ui) \<Rightarrow>
                 Inr (Some \<lparr>sc_jsonSchema = js, sc_uiSchema = ui, sc_formData = formData,
                   sc_actionSchema =
                     \<lparr>a_actionName = s_actionName s,
                      a_summaryCheckExpression =
                        (if s_summaryCheckExpression s = [] then ''true''
                         else s_summaryCheckExpression s),
                      a_nextFlowDeterminationExpression =
                        (case s_navigationRule s of
                           Some rule \<Rightarrow> convertToExpression cs rule
                         | None \<Rightarrow> continueLiteral)\<rparr>\<rparr>))"

section \<open>Flow export\<close>

record exportedStep =
  e_id :: string
  e_name :: string
  e_description :: string
  e_order :: nat
  e_schemas :: "schemas option"

record flowMetadata =
  m_totalSteps :: nat
  m_totalFields :: nat
  m_fieldTypes :: "fieldType list"

record flowData =
  fl_name :: string
  fl_description :: string
  fl_version :: string
  fl_created :: string
  fl_steps :: "exportedStep list"
  fl_metadata :: flowMetadata

text \<open>\<^verbatim>\<open>Array.from(new Set(xs))\<close>: the first occurrence of each element, in order.\<close>

fun distinctFirst :: "'a list \<Rightarrow> 'a list" where
  "distinctFirst [] = []"
| "distinctFirst (x # xs) = x # distinctFirst (filter (\<lambda>y. y \<noteq> x) xs)"

text \<open>The callback of \<^verbatim>\<open>parsedSteps.map\<close> calls \<^verbatim>\<open>generateAllSchemas()\<close>, which
  reads the current step of the editor, for each step and its index.\<close>

fun exportSteps :: "step option \<Rightarrow> step list \<Rightarrow> nat \<Rightarrow> js_error + exportedStep list" where
  "exportSteps cs [] index = Inr []"
| "exportSteps cs (step # rest) index =
     (case generateAllSchemas cs of
        Inl e \<Rightarrow> Inl e
      | Inr schemas \<Rightarrow>
          (case exportSteps cs rest (index + 1) of
             Inl e \<Rightarrow> Inl e
           | Inr entries \<Rightarrow>
               Inr (\<lparr>e_id = s_id step, e_name = s_name step,
                     e_description = s_description step, e_order = index + 1,
                     e_schemas = schemas\<rparr> # entries)))"

text \<open>The document that \<^verbatim>\<open>exportCompleteFlow\<close> serialises; \<^verbatim>\<open>None\<close> when the flow
  is empty and nothing is exported. The time stamp is a parameter; the download itself
  is not modelled.\<close>

definition exportCompleteFlow ::
    "step list \<Rightarrow> nat \<Rightarrow> string \<Rightarrow> string \<Rightarrow> js_error + flowData option" where
  "exportCompleteFlow parsedSteps currentStepIndex currentFlowName now =
     (if length parsedSteps = 0 then Inr None
      else case exportSteps (currentStep parsedSteps currentStepIndex) parsedSteps 0 of
        Inl e \<Rightarrow> Inl e
      | Inr entries \<Rightarrow>
          Inr (Some \<lparr>fl_name = currentFlowName,
            fl_description = ''Form with '' @ showNat (length parsedSteps) @ '' pages'',
            fl_version = ''1.0'',
            fl_created = now,
            fl_steps = entries,
            fl_metadata =
              \<lparr>m_totalSteps = length parsedSteps,
               m_totalFields = foldl (\<lambda>sum step. sum + length (s_fields step)) 0 parsedSteps,
               m_fieldTypes =
                 distinctFirst (concat (map (\<lambda>step. map f_type (s_fields step)) parsedSteps))\<rparr>\<rparr>))"

section \<open>Template resolution\<close>

text \<open>\<^verbatim>\<open>String.prototype.split\<close> on a one-character separator.\<close>

fun splitOn :: "char \<Rightarrow> string \<Rightarrow> string list" where
  "splitOn sep [] = [[]]"
| "splitOn sep (c # cs) =
     (if c = sep then [] # splitOn sep cs
      else (case splitOn sep cs of
              [] \<Rightarrow> [[c]]
            | w # ws \<Rightarrow> (c # w) # ws))"

text \<open>\<^verbatim>\<open>result && typeof result === "object" && key in result\<close>, and then
  \<^verbatim>\<open>result[key]\<close>; \<^verbatim>\<open>None\<close> when the test fails.\<close>

fun getProp :: "jsval \<Rightarrow> string \<Rightarrow> jsval option" where
  "getProp (JObj props) key =
     (case map_of props key of
        Some v \<Rightarrow> Some v
      | None \<Rightarrow> objectInherited JObjectPrototype key)"
| "getProp (JArr xs) key =
     (if key = ''length'' then Some (JNum (int (length xs)))
      else case indexOfKey key of
        Some i \<Rightarrow> if i < length xs then Some (xs ! i) else arrayInherited JArrayPrototype key
      | None \<Rightarrow> arrayInherited JArrayPrototype key)"
| "getProp JArrayPrototype key =
     (if key = ''length'' then Some (JNum 0) else arrayInherited JObjectPrototype key)"
| "getProp JObjectPrototype key = objectInherited JNull key"
| "getProp _ key = None"

fun walk :: "jsval \<Rightarrow> string list \<Rightarrow> jsval option" where
  "walk result [] = Some result"
| "walk result (key # keys) =
     (case getProp result key of
        None \<Rightarrow> None
      | Some v \<Rightarrow> walk v keys)"

fun truthy :: "jsval \<Rightarrow> bool" where
  "truthy JUndefined = False"
| "truthy JNull = False"
| "truthy (JBool b) = b"
| "truthy (JNum n) = (n \<noteq> 0)"
| "truthy (JStr s) = (s \<noteq> [])"
| "truthy (JArr xs) = True"
| "truthy (JObj props) = True"
| "truthy (JFun name) = True"
| "truthy JObjectPrototype = True"
| "truthy JArrayPrototype = True"

definition processTemplateValue :: "jsval \<Rightarrow> jsval \<Rightarrow> jsval" where
  "processTemplateValue v context =
     (case v of
        JStr s \<Rightarrow>
          (if s \<noteq> [] \<and> hd s = CHR ''#'' then
             (case walk context (splitOn (CHR ''.'') (tl s)) of
                None \<Rightarrow> v
              | Some result \<Rightarrow> if truthy result then result else v)
           else v)
      | _ \<Rightarrow> v)"

section \<open>Reading a navigation expression\<close>

text \<open>
  Modelled from the spec: the interpreter of the navigation expression is outside the
  repository (``a portable textual decision expression evaluable by an external
  interpreter that has access to the live answer record''). The expression is JavaScript
  source text, so its reader is modelled as a tokenizer, a parser for the conditional
  chains over \<^verbatim>\<open>formData\<close> and an evaluator with JavaScript's meaning of
  \<^verbatim>\<open>===\<close>, \<^verbatim>\<open>includes\<close> and \<^verbatim>\<open>?:\<close>. Text outside this fragment is a
  syntax error of the model.
\<close>

datatype token =
    TStr string
  | TIdent string
  | TDot
  | TQuestion
  | TColon
  | TStrictEq
  | TLParen
  | TRParen

definition isIdentStart :: "char \<Rightarrow> bool" where
  "isIdentStart c =
     (c \<in> set ''abcdefghijklmnopqrstuvwxyzABCDEFGHIJKLMNOPQRSTUVWXYZ_$'')"

definition isIdentPart :: "char \<Rightarrow> bool" where
  "isIdentPart c = (isIdentStart c \<or> isDigit c)"

definition isSpace :: "char \<Rightarrow> bool" where
  "isSpace c = (c \<in> set [CHR '' '', CHR 0x09, CHR 0x0A, CHR 0x0D])"

text \<open>Modelled from the spec: the body of a quoted literal is taken as it stands; a
  backslash (an escape sequence) or a line break inside it is not read.\<close>

definition literalBodyOk :: "string \<Rightarrow> bool" where
  "literalBodyOk body = list_all (\<lambda>c. c \<noteq> CHR 0x5C \<and> c \<noteq> CHR 0x0A \<and> c \<noteq> CHR 0x0D) body"

text \<open>Modelled from the spec: the tokens are quoted literals, identifiers,
  \<^verbatim>\<open>===\<close> and the punctuation of member access, call and conditional; white
  space separates tokens; any other character is a syntax error (\<^verbatim>\<open>None\<close>).\<close>

function tokenize :: "string \<Rightarrow> token list option" where
  "tokenize [] = Some []"
| "tokenize (c # cs) =
     (if isSpace c then tokenize cs
      else if c = sq then
        (case dropWhile (\<lambda>x. x \<noteq> sq) cs of
           [] \<Rightarrow> None
         | q # rest \<Rightarrow>
             if literalBodyOk (takeWhile (\<lambda>x. x \<noteq> sq) cs)
             then map_option ((#) (TStr (takeWhile (\<lambda>x. x \<noteq> sq) cs))) (tokenize rest)
             else None)
      else if isIdentStart c then
        map_option ((#) (TIdent (c # takeWhile isIdentPart cs)))
          (tokenize (dropWhile isIdentPart cs))
      else if c = CHR ''='' then
        (case cs of
           a # b # rest \<Rightarrow>
             if a = CHR ''='' \<and> b = CHR ''=''
             then map_option ((#) TStrictEq) (tokenize rest) else None
         | _ \<Rightarrow> None)
      else if c = CHR ''.'' then map_option ((#) TDot) (tokenize cs)
      else if c = CHR ''?'' then map_option ((#) TQuestion) (tokenize cs)
      else if c = CHR '':'' then map_option ((#) TColon) (tokenize cs)
      else if c = CHR ''('' then map_option ((#) TLParen) (tokenize cs)
      else if c = CHR '')'' then map_option ((#) TRParen) (tokenize cs)
      else None)"
  by pat_completeness auto
termination
proof (relation "measure length")
  show "wf (measure (length :: string \<Rightarrow> nat))" by simp
next
  fix c :: char and cs x21 x22
  assume "dropWhile (\<lambda>x. x \<noteq> sq) cs = x21 # x22"
  then have "length (x21 # x22) \<le> length cs"
    by (metis length_dropWhile_le)
  then show "(x22, c # cs) \<in> measure length" by simp
next
  fix c :: char and cs
  show "(dropWhile isIdentPart cs, c # cs) \<in> measure length"
    by (simp add: le_imp_less_Suc length_dropWhile_le)
qed auto

datatype test =
    TestEquals string string
  | TestIncludes string string

datatype expr =
    Lit string
  | Cond test string expr

text \<open>Modelled from the spec: a test is \<^verbatim>\<open>formData.f === 'v'\<close> or
  \<^verbatim>\<open>formData.f.includes('v')\<close>.\<close>

fun parseTest :: "token list \<Rightarrow> (test \<times> token list) option" where
  "parseTest (TIdent a # TDot # TIdent f # ts) =
     (if a \<noteq> ''formData'' then None
      else case ts of
        TStrictEq # TStr v # rest \<Rightarrow> Some (TestEquals f v, rest)
      | TDot # TIdent m # TLParen # TStr v # TRParen # rest \<Rightarrow>
          if m = ''includes'' then Some (TestIncludes f v, rest) else None
      | _ \<Rightarrow> None)"
| "parseTest _ = None"

text \<open>Modelled from the spec: an expression is a quoted literal or
  \<^verbatim>\<open>test ? 'literal' : expression\<close>. The recursion is on the tokens left; the
  bound says that a test consumes at least one token.\<close>

function parseExpr :: "token list \<Rightarrow> expr option" where
  "parseExpr ts =
     (case ts of
        [TStr s] \<Rightarrow> Some (Lit s)
      | _ \<Rightarrow>
        (case parseTest ts of
           None \<Rightarrow> None
         | Some (t, rest) \<Rightarrow>
             (case rest of
                TQuestion # TStr n # TColon # rest' \<Rightarrow>
                  if length rest' < length ts
                  then map_option (Cond t n) (parseExpr rest') else None
              | _ \<Rightarrow> None)))"
  by pat_completeness auto
termination
  by (relation "measure length") auto

declare parseExpr.simps [simp del]

text \<open>\<^verbatim>\<open>String.prototype.includes\<close>: the argument occurs as a substring.\<close>

fun strIncludes :: "string \<Rightarrow> string \<Rightarrow> bool" where
  "strIncludes [] v = (v = [])"
| "strIncludes (c # cs) v = (take (length v) (c # cs) = v \<or> strIncludes cs v)"

datatype jsResult =
    SyntaxError
  | RuntimeTypeError
  | Value string

text \<open>Modelled from the spec: \<^verbatim>\<open>formData\<close> is the answer record. Strict equality
  with a string literal holds for that string only. \<^verbatim>\<open>includes\<close> is the array
  method on an array and the string method on a string; on \<^verbatim>\<open>undefined\<close> and
  \<^verbatim>\<open>null\<close> the property access raises a TypeError, and on the other values the call
  of a missing method does.\<close>

fun evalTest :: "answers \<Rightarrow> test \<Rightarrow> bool option" where
  "evalTest formData (TestEquals f v) = Some (pd_get formData f = JStr v)"
| "evalTest formData (TestIncludes f v) =
     (case arrayElems (pd_get formData f) of
        Some xs \<Rightarrow> Some (arr_includes xs v)
      | None \<Rightarrow>
          (case pd_get formData f of
             JStr s \<Rightarrow> Some (strIncludes s v)
           | _ \<Rightarrow> None))"

text \<open>Modelled from the spec: the conditional takes the first branch whose test holds;
  running a text is tokenizing, parsing and evaluating it.\<close>

fun evalExpr :: "answers \<Rightarrow> expr \<Rightarrow> jsResult" where
  "evalExpr formData (Lit s) = Value s"
| "evalExpr formData (Cond t n e) =
     (case evalTest formData t of
        None \<Rightarrow> RuntimeTypeError
      | Some True \<Rightarrow> Value n
      | Some False \<Rightarrow> evalExpr formData e)"

definition runExpression :: "string \<Rightarrow> answers \<Rightarrow> jsResult" where
  "runExpression src formData =
     (case tokenize src of
        None \<Rightarrow> SyntaxError
      | Some ts \<Rightarrow>
          (case parseExpr ts of
             None \<Rightarrow> SyntaxError
           | Some e \<Rightarrow> evalExpr formData e))"

section \<open>Well-formed rules and what the builder prints for them\<close>

text \<open>A field id that can stand after \<^verbatim>\<open>formData.\<close> as an identifier, and a string
  that can stand between single quotes as it is: no quote, no backslash, no line
  break.\<close>

definition identifierOk :: "string \<Rightarrow> bool" where
  "identifierOk f = (f \<noteq> [] \<and> isIdentStart (hd f) \<and> list_all isIdentPart (tl f))"

definition literalOk :: "string \<Rightarrow> bool" where
  "literalOk v = (sq \<notin> set v \<and> literalBodyOk v)"

text \<open>The tokens of one clause of each kind, and the expression a list of clauses with a
  final literal stands for.\<close>

definition equalsTokens :: "string \<Rightarrow> navCondition \<Rightarrow> token list" where
  "equalsTokens f c = [TIdent ''formData'', TDot, TIdent f, TStrictEq, TStr (c_value c),
     TQuestion, TStr (c_nextStepName c), TColon]"

definition includesTokens :: "string \<Rightarrow> navCondition \<Rightarrow> token list" where
  "includesTokens f c = [TIdent ''formData'', TDot, TIdent f, TDot, TIdent ''includes'', TLParen,
     TStr (c_value c), TRParen, TQuestion, TStr (c_nextStepName c), TColon]"

fun chain :: "(navCondition \<Rightarrow> test) \<Rightarrow> navCondition list \<Rightarrow> string \<Rightarrow> expr" where
  "chain mk [] d = Lit d"
| "chain mk (c # cs) d = Cond (mk c) (c_nextStepName c) (chain mk cs d)"

section \<open>Sample inputs\<close>

text \<open>A field with an id, a kind and nothing else set, and a step with a name, its
  fields and an optional navigation rule; the concrete inputs below are built from
  them.\<close>

definition plainField :: "string \<Rightarrow> fieldType \<Rightarrow> formField" where
  "plainField i t = \<lparr>f_id = i, f_type = t, f_title = i, f_required = False, f_placeholder = None,
     f_options = None, f_defaultValue = JUndefined, f_readOnly = None, f_widget = None,
     f_dependsOn = None, f_showWhen = None, f_acceptedFileTypes = None, f_maxFileSize = None,
     f_multiple = None\<rparr>"

definition plainStep :: "string \<Rightarrow> formField list \<Rightarrow> navigationRule option \<Rightarrow> step" where
  "plainStep n fs r = \<lparr>s_id = n, s_name = n, s_description = [], s_fields = fs, s_actionName = ''submit'',
     s_navigationRule = r, s_summaryCheckExpression = ''true''\<rparr>"


text \<open>Two flows of two pages. In the first, page one branches on a radio field; in the
  second, the rule of page one names a field that the page does not have.\<close>

definition colorRule :: navigationRule where
  "colorRule = \<lparr>r_fieldId = ''color'',
      r_conditions = [\<lparr>c_value = ''Red'', c_nextStepName = ''Page 2''\<rparr>],
      r_defaultStepName = Some ''continue''\<rparr>"

definition colorFlow :: "step list" where
  "colorFlow = [plainStep ''Page 1'' [plainField ''color'' Radio] (Some colorRule),
                plainStep ''Page 2'' [] None]"

definition danglingRule :: navigationRule where
  "danglingRule = \<lparr>r_fieldId = ''gone'',
      r_conditions = [\<lparr>c_value = ''Red'', c_nextStepName = ''Page 2''\<rparr>],
      r_defaultStepName = None\<rparr>"

definition danglingFlow :: "step list" where
  "danglingFlow = [plainStep ''Page 1'' [] (Some danglingRule), plainStep ''Page 2'' [] None]"

definition startState :: "answers \<Rightarrow> navState" where
  "startState pd = \<lparr>n_currentStepIndex = 0, n_previewData = pd, n_saveStatus = StatusNone\<rparr>"

text \<open>A rule with no conditions and a default target.\<close>

definition defaultOnlyRule :: navigationRule where
  "defaultOnlyRule = \<lparr>r_fieldId = ''color'', r_conditions = [],
      r_defaultStepName = Some ''Page 2''\<rparr>"

text \<open>A step whose only field is a required text field with the id
  \<^verbatim>\<open>constructor\<close>, as pasting a field from the clipboard can create it.\<close>

definition inheritedIdStep :: step where
  "inheritedIdStep =
     plainStep ''Page 1''
       [(plainField ''constructor'' Text)\<lparr>f_title := ''Name'', f_required := True\<rparr>] None"

text \<open>Page one of the first flow with a second, required field.\<close>

definition twoFieldFlow :: "step list" where
  "twoFieldFlow =
     [plainStep ''Page 1''
        [plainField ''color'' Radio, (plainField ''name'' Text)\<lparr>f_required := True\<rparr>]
        (Some colorRule),
      plainStep ''Page 2'' [] None]"

text \<open>Two text fields as \<^verbatim>\<open>addField\<close> creates them, with the one id it gives to
  every text field; the first has been given a default.\<close>

definition twinFields :: "formField list" where
  "twinFields =
     [(plainField ''textInput'' Text)\<lparr>f_defaultValue := JStr ''Ann''\<rparr>,
      (plainField ''textInput'' Text)\<lparr>f_defaultValue := JStr []\<rparr>]"

section \<open>Reading and writing dictionaries\<close>

lemma map_of_insertIndexKey:
  "k \<notin> fst ` set props \<Longrightarrow> map_of (insertIndexKey k v props) = (map_of props)(k \<mapsto> v)"
proof (induction props)
  case Nil
  then show ?case by simp
next
  case (Cons p props)
  obtain k' v' where p: "p = (k', v')" by (cases p)
  with Cons.prems have ne: "k' \<noteq> k" and rest: "k \<notin> fst ` set props"
    by auto
  from Cons.IH [OF rest] ne show ?case
    unfolding p by (auto simp add: fun_upd_twist)
qed

lemma map_of_ownSet: "map_of (ownSet k v props) = (map_of props)(k \<mapsto> v)"
proof (cases "k \<in> fst ` set props")
  case True
  then show ?thesis
    by (simp add: ownSet_def update_conv')
next
  case False
  then have "map_of props k = None"
    by (simp add: map_of_eq_None_iff)
  then have "map_of (props @ [(k, v)]) = (map_of props)(k \<mapsto> v)"
    by (auto simp add: map_add_def fun_eq_iff split: option.splits)
  with False show ?thesis
    by (simp add: ownSet_def map_of_insertIndexKey)
qed

lemma map_of_assignProp_other:
  "k' \<noteq> k \<Longrightarrow> map_of (assignProp k v props) k' = map_of props k'"
  by (simp add: assignProp_def map_of_ownSet)

text \<open>What a plain object inherits is a function or the prototype object, never a string,
  an array, undefined or null.\<close>

lemma inherited_value:
  "objectInherited JObjectPrototype k = Some v \<Longrightarrow> v = JObjectPrototype \<or> (\<exists>n. v = JFun n)"
  by (auto simp add: objectInherited_def split: if_splits)

lemma arrayElems_simps [simp]:
  "arrayElems (JArr xs) = Some xs" "arrayElems JArrayPrototype = Some []"
  "arrayElems JUndefined = None" "arrayElems JNull = None" "arrayElems (JBool b) = None"
  "arrayElems (JNum n) = None" "arrayElems (JStr s) = None" "arrayElems (JObj props) = None"
  "arrayElems (JFun name) = None" "arrayElems JObjectPrototype = None"
  by (simp_all add: arrayElems_def)

lemma arr_includes_selectedValues:
  "arr_includes (selectedValues a) v = (\<exists>xs. a = JArr xs \<and> JStr v \<in> set xs)"
  by (cases a) (simp_all add: arr_includes_def selectedValues_def)

section \<open>Visibility\<close>

text \<open>
  C10. A field whose \<^verbatim>\<open>dependsOn\<close> is set while its \<^verbatim>\<open>showWhen\<close> is unset
  (absent or the empty string) is visible whatever the step contains and whatever the
  answers are, since the driver is never looked up; and a field that is not visible has
  both \<^verbatim>\<open>dependsOn\<close> and \<^verbatim>\<open>showWhen\<close> set, so the dangling-dependency rule
  and the empty-answer rule hide a field only then.
\<close>

theorem isFieldVisible_showWhen_unset:
  "(\<not> str_truthy (f_showWhen field) \<longrightarrow> isFieldVisible cs pd field)
   \<and> (\<not> isFieldVisible cs pd field
        \<longrightarrow> str_truthy (f_dependsOn field) \<and> str_truthy (f_showWhen field))"
  by (auto simp add: isFieldVisible_def)

theorem isFieldVisible_showWhen_unset_witness:
  "\<not> str_truthy (f_showWhen ((plainField ''city'' Text)\<lparr>f_dependsOn := Some ''ghost''\<rparr>))
   \<and> isFieldVisible (Some (plainStep ''Page 1'' [] None)) Map.empty
        ((plainField ''city'' Text)\<lparr>f_dependsOn := Some ''ghost''\<rparr>)"
  using isFieldVisible_showWhen_unset
    [of "(plainField ''city'' Text)\<lparr>f_dependsOn := Some ''ghost''\<rparr>"
        "Some (plainStep ''Page 1'' [] None)" Map.empty]
  by (simp add: plainField_def str_truthy_def)

text \<open>
  C4 as stated fails: a field that depends on a field missing from the step, with no
  \<^verbatim>\<open>showWhen\<close>, is visible.
\<close>

theorem isFieldVisible_dangling_counterexample:
  "findField (Some (plainStep ''Page 1'' [] None)) ''ghost'' = None
   \<and> f_dependsOn ((plainField ''city'' Text)\<lparr>f_dependsOn := Some ''ghost''\<rparr>) = Some ''ghost''
   \<and> isFieldVisible (Some (plainStep ''Page 1'' [] None)) Map.empty
        ((plainField ''city'' Text)\<lparr>f_dependsOn := Some ''ghost''\<rparr>)"
  by (simp add: isFieldVisible_def plainField_def plainStep_def findField_def str_truthy_def)

text \<open>
  C4, amended. A field with no \<^verbatim>\<open>dependsOn\<close> is visible. When both
  \<^verbatim>\<open>dependsOn\<close> and \<^verbatim>\<open>showWhen\<close> are set: the field is not visible if the
  driver is not a field of the step; it is not visible if the driver's answer is unset,
  null or the empty string; otherwise it is visible exactly when the answer equals
  \<^verbatim>\<open>showWhen\<close> for a radio or select driver, when the answer is a sequence that
  contains \<^verbatim>\<open>showWhen\<close> for a checkbox driver, and when the answer equals
  \<^verbatim>\<open>showWhen\<close> for a driver of any other kind.
\<close>

theorem isFieldVisible_table:
  "(\<not> str_truthy (f_dependsOn field) \<longrightarrow> isFieldVisible cs pd field)
   \<and> (f_dependsOn field = Some d \<and> d \<noteq> [] \<and> f_showWhen field = Some w \<and> w \<noteq> [] \<longrightarrow>
        (findField cs d = None \<longrightarrow> \<not> isFieldVisible cs pd field)
      \<and> (pd d = None \<or> pd d = Some JUndefined \<or> pd d = Some JNull \<or> pd d = Some (JStr [])
           \<longrightarrow> \<not> isFieldVisible cs pd field)
      \<and> (\<forall>parent a. findField cs d = Some parent \<and> pd d = Some a
             \<and> a \<noteq> JUndefined \<and> a \<noteq> JNull \<and> a \<noteq> JStr [] \<longrightarrow>
            (f_type parent = Radio \<or> f_type parent = Select
               \<longrightarrow> isFieldVisible cs pd field = (a = JStr w))
          \<and> (f_type parent = Checkbox
               \<longrightarrow> isFieldVisible cs pd field = (\<exists>xs. a = JArr xs \<and> JStr w \<in> set xs))
          \<and> (f_type parent \<notin> {Radio, Select, Checkbox}
               \<longrightarrow> isFieldVisible cs pd field = (a = JStr w))))"
  by (auto simp add: isFieldVisible_def str_truthy_def opt_str_def pd_get_def Let_def
        arr_includes_selectedValues dest!: inherited_value split: option.splits)

theorem isFieldVisible_table_witness:
  "isFieldVisible (Some (plainStep ''Page 1'' [plainField ''country'' Radio] None))
      [''country'' \<mapsto> JStr ''US'']
      ((plainField ''city'' Text)\<lparr>f_dependsOn := Some ''country'', f_showWhen := Some ''US''\<rparr>)
   \<and> \<not> isFieldVisible (Some (plainStep ''Page 1'' [plainField ''country'' Radio] None))
      [''country'' \<mapsto> JStr ''CA'']
      ((plainField ''city'' Text)\<lparr>f_dependsOn := Some ''country'', f_showWhen := Some ''US''\<rparr>)
   \<and> \<not> isFieldVisible (Some (plainStep ''Page 1'' [plainField ''country'' Radio] None))
      Map.empty
      ((plainField ''city'' Text)\<lparr>f_dependsOn := Some ''country'', f_showWhen := Some ''US''\<rparr>)"
  using isFieldVisible_table
    [of "(plainField ''city'' Text)\<lparr>f_dependsOn := Some ''country'', f_showWhen := Some ''US''\<rparr>"
        "Some (plainStep ''Page 1'' [plainField ''country'' Radio] None)"
        "[''country'' \<mapsto> JStr ''US'']" "''country''" "''US''"]
    isFieldVisible_table
    [of "(plainField ''city'' Text)\<lparr>f_dependsOn := Some ''country'', f_showWhen := Some ''US''\<rparr>"
        "Some (plainStep ''Page 1'' [plainField ''country'' Radio] None)"
        "[''country'' \<mapsto> JStr ''CA'']" "''country''" "''US''"]
    isFieldVisible_table
    [of "(plainField ''city'' Text)\<lparr>f_dependsOn := Some ''country'', f_showWhen := Some ''US''\<rparr>"
        "Some (plainStep ''Page 1'' [plainField ''country'' Radio] None)"
        "Map.empty" "''country''" "''US''"]
  by (simp add: plainField_def plainStep_def findField_def)

section \<open>Runtime validation\<close>

lemma foldl_previewCheck:
  "foldl (previewCheck cs pd) acc fs =
     acc @ map requiredMessage
       (filter (\<lambda>f. f_required f \<and> f_type f \<noteq> Title \<and> isFieldVisible cs pd f
                    \<and> isMissing (pd_get pd (f_id f))) fs)"
  by (induction fs arbitrary: acc) (simp_all add: previewCheck_def)

text \<open>What the preview branch computes: one message, in field order, for each field that
  is required, is not a title, is visible, and for which reading the answer record under
  its id gives undefined, null, the empty string or an empty array.\<close>

lemma validateCurrentStep_preview_read:
  "v_errors (validateCurrentStep True (Some s) pd) =
     map (\<lambda>f. dq # f_title f @ dq # '' is required'')
       (filter (\<lambda>f. f_required f \<and> f_type f \<noteq> Title \<and> isFieldVisible (Some s) pd f
                    \<and> isMissing (pd_get pd (f_id f)))
          (s_fields s))"
  by (simp add: validateCurrentStep_def Let_def foldl_previewCheck requiredMessage_def)

text \<open>For an id that is not the name of an inherited property, the value read is missing
  exactly when the answer is unset or is itself one of the four empty values.\<close>

lemma isMissing_own_id:
  "objectInherited JObjectPrototype k = None \<Longrightarrow>
   isMissing (pd_get pd k) = (pd k = None \<or> (\<exists>v. pd k = Some v \<and> isMissing v))"
  by (auto simp add: pd_get_def isMissing_def arrayElems_def split: option.splits)

text \<open>
  C8. A step whose one field is a required, visible text field with the id
  \<^verbatim>\<open>constructor\<close>, and no answers: the field's answer is unset, so the claim asks
  for one error naming it, but the read \<^verbatim>\<open>previewData[field.id]\<close> finds the
  inherited function, which is none of the four empty values, and validation passes with
  no error.
\<close>

theorem validateCurrentStep_inherited_id:
  "s_fields inheritedIdStep
     = [(plainField ''constructor'' Text)\<lparr>f_title := ''Name'', f_required := True\<rparr>]
   \<and> isFieldVisible (Some inheritedIdStep) Map.empty
        ((plainField ''constructor'' Text)\<lparr>f_title := ''Name'', f_required := True\<rparr>)
   \<and> validateCurrentStep True (Some inheritedIdStep) Map.empty
        = \<lparr>v_valid = True, v_errors = []\<rparr>"
  by (simp add: inheritedIdStep_def plainStep_def plainField_def validateCurrentStep_def
        previewCheck_def isFieldVisible_def str_truthy_def pd_get_def objectInherited_def
        objectPrototypeFunctions_def isMissing_def arrayElems_def)

theorem validateCurrentStep_inherited_id_witness:
  "v_valid (validateCurrentStep True (Some inheritedIdStep) Map.empty)
   \<and> v_errors (validateCurrentStep True (Some inheritedIdStep) Map.empty) = []"
  using validateCurrentStep_inherited_id by simp

section \<open>Default answers of a field list\<close>

lemma map_of_formAssign_same:
  "k \<noteq> ''__proto__'' \<Longrightarrow> map_of (fst (formAssign k v st)) k = Some v"
  by (simp add: formAssign_def map_of_ownSet)

lemma map_of_formAssign_other:
  "k' \<noteq> k \<Longrightarrow> map_of (fst (formAssign k v st)) k' = map_of (fst st) k'"
  by (cases v) (auto simp add: formAssign_def map_of_ownSet)

lemma dom_formAssign:
  "dom (map_of (fst (formAssign k v st))) - {''__proto__''}
     = insert k (dom (map_of (fst st))) - {''__proto__''}"
  by (cases v) (auto simp add: formAssign_def map_of_ownSet)

lemma map_of_formDataStep_same:
  "f_type f \<noteq> Title \<Longrightarrow> f_id f \<noteq> ''__proto__'' \<Longrightarrow>
   map_of (fst (formDataStep st f)) (f_id f)
     = Some (if f_defaultValue f \<noteq> JUndefined \<and> f_defaultValue f \<noteq> JNull
             then f_defaultValue f else emptyDefault f)"
  by (simp add: formDataStep_def map_of_formAssign_same)

lemma map_of_formDataStep_other:
  "f_type f = Title \<or> f_id f \<noteq> k \<Longrightarrow>
   map_of (fst (formDataStep st f)) k = map_of (fst st) k"
  by (auto simp add: formDataStep_def map_of_formAssign_other)

lemma map_of_foldl_formDataStep_other:
  "\<forall>g \<in> set fs. f_type g \<noteq> Title \<longrightarrow> f_id g \<noteq> k \<Longrightarrow>
   map_of (fst (foldl formDataStep st fs)) k = map_of (fst st) k"
proof (induction fs arbitrary: st)
  case Nil
  show ?case by simp
next
  case (Cons f fs)
  then have "map_of (fst (foldl formDataStep (formDataStep st f) fs)) k
      = map_of (fst (formDataStep st f)) k"
    by simp
  also have "\<dots> = map_of (fst st) k"
    using Cons.prems by (intro map_of_formDataStep_other) auto
  finally show ?case by simp
qed

lemma dom_foldl_formDataStep:
  "dom (map_of (fst (foldl formDataStep st fs))) - {''__proto__''}
     = (dom (map_of (fst st)) \<union> f_id ` {g \<in> set fs. f_type g \<noteq> Title}) - {''__proto__''}"
proof (induction fs arbitrary: st)
  case Nil
  show ?case by simp
next
  case (Cons f fs)
  have step: "dom (map_of (fst (formDataStep st f))) - {''__proto__''}
      = (if f_type f = Title then dom (map_of (fst st))
         else insert (f_id f) (dom (map_of (fst st)))) - {''__proto__''}"
    by (simp add: formDataStep_def dom_formAssign)
  have "dom (map_of (fst (foldl formDataStep (formDataStep st f) fs))) - {''__proto__''}
      = (dom (map_of (fst (formDataStep st f))) - {''__proto__''})
          \<union> (f_id ` {g \<in> set fs. f_type g \<noteq> Title} - {''__proto__''})"
    using Cons.IH [of "formDataStep st f"] by blast
  then show ?case
    unfolding step by auto
qed

text \<open>
  C7 as stated fails: when two fields share an id (as all text fields added in the
  editor do), the record holds one value under that id, the later field's, so the earlier
  field's explicit default does not win.
\<close>

theorem generateFormData_twins_counterexample:
  "f_type (twinFields ! 0) = Text \<and> f_defaultValue (twinFields ! 0) = JStr ''Ann''
   \<and> map_of (generateFormData twinFields) (f_id (twinFields ! 0)) = Some (JStr [])"
  by (simp add: twinFields_def plainField_def generateFormData_def formDataStep_def
        formAssign_def ownSet_def isIndexKey_def isDigit_def)

text \<open>
  C7, amended. The synthesized record is keyed by field id, and title fields contribute
  no key. Leaving aside the id \<^verbatim>\<open>__proto__\<close>: the keys of the record are the ids of
  the fields that are not titles, and for a field that is not a title and whose id is not
  used again by a later field that is not a title, the value under its id is its
  \<^verbatim>\<open>defaultValue\<close> when that is neither undefined nor null, and otherwise the empty
  sequence for a checkbox, the empty sequence for a file field with \<^verbatim>\<open>multiple\<close>
  true, null for any other file field, and the empty string for every other kind.
\<close>

theorem generateFormData_defaults:
  "(fs = pre @ field # post \<and> f_type field \<noteq> Title \<and> f_id field \<noteq> ''__proto__''
      \<and> (\<forall>g \<in> set post. f_type g \<noteq> Title \<longrightarrow> f_id g \<noteq> f_id field)
    \<longrightarrow> map_of (generateFormData fs) (f_id field) =
          Some (if f_defaultValue field \<noteq> JUndefined \<and> f_defaultValue field \<noteq> JNull
                then f_defaultValue field
                else if f_type field = Checkbox then JArr []
                else if f_type field = File
                  then (if f_multiple field = Some True then JArr [] else JNull)
                else JStr []))
   \<and> dom (map_of (generateFormData fs)) - {''__proto__''}
       = f_id ` {g \<in> set fs. f_type g \<noteq> Title} - {''__proto__''}"
proof -
  have e: "emptyDefault field = (if f_type field = Checkbox then JArr []
                else if f_type field = File
                  then (if f_multiple field = Some True then JArr [] else JNull)
                else JStr [])"
    by (cases "f_type field") (simp_all add: emptyDefault_def)
  have "map_of (fst (foldl formDataStep st (pre @ field # post))) (f_id field) =
          Some (if f_defaultValue field \<noteq> JUndefined \<and> f_defaultValue field \<noteq> JNull
                then f_defaultValue field else emptyDefault field)"
    if "f_type field \<noteq> Title" "f_id field \<noteq> ''__proto__''"
      "\<forall>g \<in> set post. f_type g \<noteq> Title \<longrightarrow> f_id g \<noteq> f_id field"
    for st
    using that by (simp add: map_of_foldl_formDataStep_other map_of_formDataStep_same)
  moreover have "dom (map_of (generateFormData fs)) - {''__proto__''}
       = f_id ` {g \<in> set fs. f_type g \<noteq> Title} - {''__proto__''}"
    unfolding generateFormData_def by (simp add: dom_foldl_formDataStep)
  ultimately show ?thesis
    unfolding generateFormData_def e [symmetric]
    by (simp del: foldl_append)
qed

theorem generateFormData_defaults_witness:
  "map_of (generateFormData [plainField ''heading'' Title, plainField ''tags'' Checkbox,
       (plainField ''name'' Text)\<lparr>f_defaultValue := JStr ''Ann''\<rparr>]) ''tags'' = Some (JArr [])"
  using generateFormData_defaults
    [where fs = "[plainField ''heading'' Title, plainField ''tags'' Checkbox,
              (plainField ''name'' Text)\<lparr>f_defaultValue := JStr ''Ann''\<rparr>]"
       and pre = "[plainField ''heading'' Title]"
       and field = "plainField ''tags'' Checkbox"
       and post = "[(plainField ''name'' Text)\<lparr>f_defaultValue := JStr ''Ann''\<rparr>]",
     THEN conjunct1]
  by (simp add: plainField_def)

text \<open>The id \<^verbatim>\<open>__proto__\<close> is left aside above because the assignment under it
  reaches a setter: a text field with that id leaves the record without a key.\<close>

lemma generateFormData_proto_id:
  "generateFormData [plainField ''__proto__'' Text] = []"
  by (simp add: generateFormData_def formDataStep_def formAssign_def plainField_def
        emptyDefault_def)

section \<open>Field order of the presentation schema\<close>

lemma uiStep_order:
  assumes "map_of ui ''ui:order'' = Some (UiOrder order)" "f_id f \<noteq> ''ui:order''"
  shows "\<exists>ui'. uiStep ui f = Inr ui'
           \<and> map_of ui' ''ui:order'' = Some (UiOrder (order @ [f_id f]))"
  using assms by (simp add: uiStep_def Let_def update_conv' map_of_assignProp_other)

lemma compileFields_order:
  assumes "map_of ui ''ui:order'' = Some (UiOrder order)"
    and "\<forall>f \<in> set fs. f_type f \<noteq> Title \<longrightarrow> f_id f \<noteq> ''ui:order''"
  shows "\<exists>js' ui'. compileFields fs (js, ui) = Inr (js', ui')
           \<and> map_of ui' ''ui:order''
               = Some (UiOrder (order @ map f_id (filter (\<lambda>f. f_type f \<noteq> Title) fs)))"
  using assms
proof (induction fs arbitrary: js ui order)
  case Nil
  then show ?case by simp
next
  case (Cons f fs)
  show ?case
  proof (cases "f_type f = Title")
    case True
    with Cons show ?thesis by simp
  next
    case False
    with Cons.prems have "f_id f \<noteq> ''ui:order''" by simp
    with Cons.prems(1) obtain ui1 where
      u: "uiStep ui f = Inr ui1" "map_of ui1 ''ui:order'' = Some (UiOrder (order @ [f_id f]))"
      using uiStep_order by blast
    from Cons.prems(2) have rest: "\<forall>g \<in> set fs. f_type g \<noteq> Title \<longrightarrow> f_id g \<noteq> ''ui:order''"
      by simp
    from Cons.IH [OF u(2) rest] False u(1) show ?thesis
      by (simp add: Let_def)
  qed
qed

text \<open>What the compiler does for a step none of whose fields other than titles has the id
  \<^verbatim>\<open>ui:order\<close>: it succeeds, and the order list is the ids of those fields in
  order.\<close>

lemma generateAllSchemas_ui_order:
  assumes "\<forall>f \<in> set (s_fields s). f_type f \<noteq> Title \<longrightarrow> f_id f \<noteq> ''ui:order''"
  shows "\<exists>sc. generateAllSchemas (Some s) = Inr (Some sc)
           \<and> map_of (sc_uiSchema sc) ''ui:order''
               = Some (UiOrder (map f_id (filter (\<lambda>f. f_type f \<noteq> Title) (s_fields s))))"
proof -
  have "map_of initialUiSchema ''ui:order'' = Some (UiOrder [])"
    by (simp add: initialUiSchema_def)
  from compileFields_order [OF this assms, where js = "\<lparr>js_type = ''object'',
      js_description = s_description s, js_properties = [], js_required = []\<rparr>"]
  obtain js' ui' where
    c: "compileFields (s_fields s)
          (\<lparr>js_type = ''object'', js_description = s_description s,
            js_properties = [], js_required = []\<rparr>, initialUiSchema) = Inr (js', ui')"
    and o: "map_of ui' ''ui:order''
          = Some (UiOrder (map f_id (filter (\<lambda>f. f_type f \<noteq> Title) (s_fields s))))"
    by auto
  show ?thesis
    by (simp add: generateAllSchemas_def Let_def c o)
qed

text \<open>
  C9. A step with one text field whose id is \<^verbatim>\<open>ui:order\<close>: the claim gives the
  order list \<^verbatim>\<open>["ui:order"]\<close>, but the field's widget entry is stored under the key
  that holds the list, the push that follows finds no array, and compilation ends in a
  TypeError with no presentation schema at all.
\<close>

theorem generateAllSchemas_reserved_id_throws:
  "map f_id (filter (\<lambda>f. f_type f \<noteq> Title)
       (s_fields (plainStep ''Page 1'' [plainField ''ui:order'' Text] None))) = [''ui:order'']
   \<and> generateAllSchemas (Some (plainStep ''Page 1'' [plainField ''ui:order'' Text] None))
       = Inl TypeError"
  by code_simp

section \<open>Flow export: which step is compiled\<close>

text \<open>What the export does: one entry per step, in order, numbered from one, and every
  entry carries the compile result of the editor's current step.\<close>

lemma exportSteps_schemas:
  "exportSteps cs steps index = Inr entries \<Longrightarrow>
     length entries = length steps
     \<and> (\<forall>i < length steps. e_id (entries ! i) = s_id (steps ! i)
           \<and> e_order (entries ! i) = index + i + 1
           \<and> Inr (e_schemas (entries ! i)) = generateAllSchemas cs)"
proof (induction steps arbitrary: index entries)
  case Nil
  then show ?case by simp
next
  case (Cons a steps)
  then show ?case
    by (auto simp add: nth_Cons split: sum.splits nat.splits)
qed

text \<open>
  C3. A flow of two pages with different fields, exported while the editor is on the
  first page: the document has one entry per step in order, but the schemas of the second
  entry are the compile result of the first page, not of the second page itself.
\<close>

theorem exportCompleteFlow_second_page:
  "(case exportCompleteFlow
           [plainStep ''Page 1'' [plainField ''a'' Text] None,
            plainStep ''Page 2'' [plainField ''b'' Checkbox] None] 0 ''Flow'' ''now'' of
      Inr (Some doc) \<Rightarrow>
        map e_name (fl_steps doc) = [''Page 1'', ''Page 2'']
        \<and> Inr (e_schemas (fl_steps doc ! 1))
            = generateAllSchemas (Some (plainStep ''Page 1'' [plainField ''a'' Text] None))
        \<and> Inr (e_schemas (fl_steps doc ! 1))
            \<noteq> generateAllSchemas (Some (plainStep ''Page 2'' [plainField ''b'' Checkbox] None))
    | _ \<Rightarrow> False)"
  by code_simp

section \<open>Template resolution: fallbacks\<close>







text \<open>The last clause cannot say more: an object with no properties is truthy, so a path
  that resolves to one returns it and not the template string.\<close>

lemma processTemplateValue_empty_object:
  "processTemplateValue (JStr ''#workorder'') (JObj [(''workorder'', JObj [])]) = JObj []"
  by (simp add: processTemplateValue_def)

section \<open>Next-step evaluation: outcomes\<close>

lemma findIndex_None: "findIndex P xs = None \<longleftrightarrow> (\<forall>x \<in> set xs. \<not> P x)"
  by (induction xs) auto

lemma findIndex_Some:
  "findIndex P xs = Some i \<longleftrightarrow> i < length xs \<and> P (xs ! i) \<and> (\<forall>j < i. \<not> P (xs ! j))"
proof (induction xs arbitrary: i)
  case Nil
  then show ?case by simp
next
  case (Cons x xs)
  show ?case
  proof (cases "P x")
    case True
    then show ?thesis
      by (cases i) auto
  next
    case False
    show ?thesis
    proof (cases i)
      case 0
      with False show ?thesis by auto
    next
      case (Suc k)
      have "(\<forall>j < Suc k. \<not> P ((x # xs) ! j)) \<longleftrightarrow> (\<forall>j < k. \<not> P (xs ! j))"
        using False by (auto simp add: less_Suc_eq_0_disj)
      with False Suc Cons.IH [of k] show ?thesis
        by auto
    qed
  qed
qed

lemma findIndex_Least:
  assumes "findIndex P xs = Some i"
  shows "(LEAST k. k < length xs \<and> P (xs ! k)) = i"
proof (rule Least_equality)
  from assms show "i < length xs \<and> P (xs ! i)" by (simp add: findIndex_Some)
next
  fix k assume "k < length xs \<and> P (xs ! k)"
  with assms show "i \<le> k"
    by (metis findIndex_Some not_le_imp_less)
qed

lemma resolveTarget_first_match:
  "resolveTarget rule field a =
     (case find (\<lambda>c. if f_type field = Checkbox
                      then (\<exists>xs. a = JArr xs \<and> JStr (c_value c) \<in> set xs)
                      else a = JStr (c_value c)) (r_conditions rule) of
        Some c \<Rightarrow> c_nextStepName c
      | None \<Rightarrow> (case r_defaultStepName rule of
                   None \<Rightarrow> ''continue''
                 | Some d \<Rightarrow> if d = [] then ''continue'' else d))"
proof -
  have d: "defaultTarget rule = (case r_defaultStepName rule of
                   None \<Rightarrow> ''continue''
                 | Some d \<Rightarrow> if d = [] then ''continue'' else d)"
    by (simp add: defaultTarget_def str_truthy_def opt_str_def split: option.splits)
  have e: "(\<lambda>cond. JStr (c_value cond) = a) = (\<lambda>c. a = JStr (c_value c))"
    by auto
  show ?thesis
    by (simp add: resolveTarget_def d e arr_includes_selectedValues split: option.splits)
qed

lemma goToTarget_outcome:
  "goToTarget parsedSteps st target =
     (if target = ''continue'' then
        (if n_currentStepIndex st + 1 < length parsedSteps
         then st\<lparr>n_currentStepIndex := n_currentStepIndex st + 1, n_previewData := Map.empty\<rparr>
         else st\<lparr>n_saveStatus := FormComplete\<rparr>)
      else if target = ''end'' then st\<lparr>n_saveStatus := FormEnded\<rparr>
      else if target = ''skip''
        then st\<lparr>n_currentStepIndex := length parsedSteps - 1, n_previewData := Map.empty\<rparr>
      else if \<exists>i < length parsedSteps. s_name (parsedSteps ! i) = target
        then st\<lparr>n_currentStepIndex :=
                  (LEAST i. i < length parsedSteps \<and> s_name (parsedSteps ! i) = target),
                n_previewData := Map.empty\<rparr>
      else st\<lparr>n_saveStatus := TargetNotFound target\<rparr>)"
proof (cases "findIndex (\<lambda>s. s_name s = target) parsedSteps")
  case None
  then have "\<not> (\<exists>i < length parsedSteps. s_name (parsedSteps ! i) = target)"
    by (auto simp add: findIndex_None)
  with None show ?thesis
    by (auto simp add: goToTarget_def advance_def)
next
  case (Some i)
  then have "\<exists>i < length parsedSteps. s_name (parsedSteps ! i) = target"
    by (auto simp add: findIndex_Some)
  with Some findIndex_Least [OF Some] show ?thesis
    by (auto simp add: goToTarget_def advance_def)
qed

text \<open>
  C5 as stated fails: on a step with a navigation rule and an answered driver, a second
  required field without an answer makes validation fail, and the evaluator reports the
  validation error and goes nowhere, whatever the target would be.
\<close>

theorem executeNavigation_invalid_counterexample:
  "s_navigationRule (twoFieldFlow ! 0) = Some colorRule
   \<and> pd_get [''color'' \<mapsto> JStr ''Red''] (r_fieldId colorRule) = JStr ''Red''
   \<and> executeNavigation True twoFieldFlow (startState [''color'' \<mapsto> JStr ''Red''])
       = (startState [''color'' \<mapsto> JStr ''Red''])\<lparr>n_saveStatus := ValidationErrors 1\<rparr>"
  by (simp add: twoFieldFlow_def colorRule_def plainStep_def plainField_def startState_def
        executeNavigation_def decideNavigation_def currentStep_def validateCurrentStep_def
        previewCheck_def isFieldVisible_def str_truthy_def pd_get_def objectInherited_def
        objectPrototypeFunctions_def isMissing_def)

text \<open>
  C5, amended. Take a current step whose validation passes, with a navigation rule whose
  driver is a field of the step and has an answer that is not undefined, not the empty
  string and not an empty array. The target is the next-step name of
  the first condition, in listed order, that matches (for a checkbox driver the answer
  is a sequence containing the condition's value, otherwise the answer equals it), or
  else \<^verbatim>\<open>defaultStepName\<close>, or else \<^verbatim>\<open>continue\<close>. Then: \<^verbatim>\<open>continue\<close> moves to
  the next index, or reports completion on the last step; \<^verbatim>\<open>end\<close> reports that the
  form ended and moves nowhere; \<^verbatim>\<open>skip\<close> moves to the last index; the name of an
  existing step moves to the index of the first step with that name; any other name is
  reported as not found and index and answers stay as they are.
\<close>

theorem executeNavigation_outcome:
  assumes "currentStep parsedSteps (n_currentStepIndex st) = Some s"
    and "v_valid (validateCurrentStep previewMode (Some s) (n_previewData st))"
    and "s_navigationRule s = Some rule"
    and "find (\<lambda>f. f_id f = r_fieldId rule) (s_fields s) = Some field"
    and "pd_get (n_previewData st) (r_fieldId rule) = a"
    and "a \<noteq> JUndefined" "a \<noteq> JStr []" "arrayElems a \<noteq> Some []"
    and "target =
      (case find (\<lambda>c. if f_type field = Checkbox
                       then (\<exists>xs. a = JArr xs \<and> JStr (c_value c) \<in> set xs)
                       else a = JStr (c_value c)) (r_conditions rule) of
         Some c \<Rightarrow> c_nextStepName c
       | None \<Rightarrow> (case r_defaultStepName rule of
                    None \<Rightarrow> ''continue''
                  | Some d \<Rightarrow> if d = [] then ''continue'' else d))"
  shows "executeNavigation previewMode parsedSteps st =
     (if target = ''continue'' then
        (if n_currentStepIndex st + 1 < length parsedSteps
         then st\<lparr>n_currentStepIndex := n_currentStepIndex st + 1, n_previewData := Map.empty\<rparr>
         else st\<lparr>n_saveStatus := FormComplete\<rparr>)
      else if target = ''end'' then st\<lparr>n_saveStatus := FormEnded\<rparr>
      else if target = ''skip''
        then st\<lparr>n_currentStepIndex := length parsedSteps - 1, n_previewData := Map.empty\<rparr>
      else if \<exists>i < length parsedSteps. s_name (parsedSteps ! i) = target
        then st\<lparr>n_currentStepIndex :=
                  (LEAST i. i < length parsedSteps \<and> s_name (parsedSteps ! i) = target),
                n_previewData := Map.empty\<rparr>
      else st\<lparr>n_saveStatus := TargetNotFound target\<rparr>)"
proof -
  have "decideNavigation previewMode (Some s) (n_previewData st) = Target target"
    using assms by (simp add: decideNavigation_def Let_def resolveTarget_first_match)
  then have "executeNavigation previewMode parsedSteps st = goToTarget parsedSteps st target"
    using assms(1) by (simp add: executeNavigation_def)
  then show ?thesis
    by (simp only: goToTarget_outcome)
qed

theorem executeNavigation_outcome_witness:
  "executeNavigation True colorFlow (startState [''color'' \<mapsto> JStr ''Red''])
     = (startState [''color'' \<mapsto> JStr ''Red''])\<lparr>n_currentStepIndex := 1, n_previewData := Map.empty\<rparr>"
proof -
  let ?st = "startState [''color'' \<mapsto> JStr ''Red'']"
  let ?s = "plainStep ''Page 1'' [plainField ''color'' Radio] (Some colorRule)"
  have l: "(LEAST i. i < length colorFlow \<and> s_name (colorFlow ! i) = ''Page 2'') = 1"
    by (rule Least_equality) (auto simp add: colorFlow_def plainStep_def nth_Cons split: nat.splits)
  have ex: "\<exists>i < length colorFlow. s_name (colorFlow ! i) = ''Page 2''"
    by (rule exI [of _ 1]) (simp add: colorFlow_def plainStep_def)
  have a1: "currentStep colorFlow (n_currentStepIndex ?st) = Some ?s"
    by (simp add: currentStep_def colorFlow_def startState_def)
  have a2: "v_valid (validateCurrentStep True (Some ?s) (n_previewData ?st))"
    by (simp add: validateCurrentStep_def plainStep_def plainField_def previewCheck_def)
  have a3: "s_navigationRule ?s = Some colorRule"
    by (simp add: plainStep_def)
  have a4: "find (\<lambda>f. f_id f = r_fieldId colorRule) (s_fields ?s) = Some (plainField ''color'' Radio)"
    by (simp add: plainStep_def plainField_def colorRule_def)
  have a5: "pd_get (n_previewData ?st) (r_fieldId colorRule) = JStr ''Red''"
    by (simp add: pd_get_def startState_def colorRule_def)
  have a9: "''Page 2'' =
      (case find (\<lambda>c. if f_type (plainField ''color'' Radio) = Checkbox
                       then (\<exists>xs. JStr ''Red'' = JArr xs \<and> JStr (c_value c) \<in> set xs)
                       else JStr ''Red'' = JStr (c_value c)) (r_conditions colorRule) of
         Some c \<Rightarrow> c_nextStepName c
       | None \<Rightarrow> (case r_defaultStepName colorRule of
                    None \<Rightarrow> ''continue''
                  | Some d \<Rightarrow> if d = [] then ''continue'' else d))"
    by (simp add: plainField_def colorRule_def)
  have "executeNavigation True colorFlow ?st =
      ?st\<lparr>n_currentStepIndex :=
             (LEAST i. i < length colorFlow \<and> s_name (colorFlow ! i) = ''Page 2''),
           n_previewData := Map.empty\<rparr>"
    using executeNavigation_outcome [OF a1 a2 a3 a4 a5 _ _ _ a9] ex
    by (simp add: arrayElems_def)
  then show ?thesis
    by (simp only: l)
qed

text \<open>
  C2 as stated fails: with a rule whose field is not in the step, the evaluator stays on
  the page and asks for the required fields instead of advancing.
\<close>

theorem executeNavigation_dangling_counterexample:
  "findField (currentStep danglingFlow 0) ''gone'' = None
   \<and> executeNavigation True danglingFlow (startState Map.empty)
       = (startState Map.empty)\<lparr>n_saveStatus := CompleteRequiredFields\<rparr>
   \<and> n_currentStepIndex (executeNavigation True danglingFlow (startState Map.empty)) = 0"
  by (simp add: executeNavigation_def decideNavigation_def validateCurrentStep_def
        currentStep_def danglingFlow_def danglingRule_def plainStep_def startState_def
        findField_def Let_def)

text \<open>
  C2, amended. When the rule of the current step names a field that the step does not
  have, the builder returns the literal \<^verbatim>\<open>'continue'\<close>, and the evaluator does not
  navigate: index and answers are unchanged, and the status reports the validation
  errors if validation fails and otherwise asks to complete the required fields.
\<close>

theorem dangling_rule_blocks:
  assumes "currentStep parsedSteps (n_currentStepIndex st) = Some s"
    and "s_navigationRule s = Some rule"
    and "findField (Some s) (r_fieldId rule) = None"
  shows "convertToExpression (Some s) rule = [sq] @ ''continue'' @ [sq]
     \<and> executeNavigation previewMode parsedSteps st =
         st\<lparr>n_saveStatus :=
              (if v_valid (validateCurrentStep previewMode (Some s) (n_previewData st))
               then CompleteRequiredFields
               else ValidationErrors
                      (length (v_errors (validateCurrentStep previewMode (Some s)
                                           (n_previewData st)))))\<rparr>"
  using assms
  by (simp add: convertToExpression_def continueLiteral_def executeNavigation_def
        decideNavigation_def findField_def Let_def)

theorem dangling_rule_blocks_witness:
  "convertToExpression (currentStep danglingFlow 0) danglingRule = [sq] @ ''continue'' @ [sq]
   \<and> executeNavigation True danglingFlow (startState Map.empty)
       = (startState Map.empty)\<lparr>n_saveStatus := CompleteRequiredFields\<rparr>"
  using dangling_rule_blocks
    [where parsedSteps = danglingFlow and st = "startState Map.empty"
       and s = "plainStep ''Page 1'' [] (Some danglingRule)" and rule = danglingRule
       and previewMode = True]
  by (simp add: currentStep_def danglingFlow_def danglingRule_def plainStep_def startState_def
        findField_def validateCurrentStep_def)

section \<open>The built expression and the native decision\<close>

subsection \<open>Tokens of the printed text\<close>

lemma isIdentStart_plain: "isIdentStart c \<Longrightarrow> \<not> isSpace c \<and> c \<noteq> sq"
  by (auto simp add: isIdentStart_def isSpace_def)

lemma not_identPart [simp]:
  "\<not> isIdentPart (CHR '' '')" "\<not> isIdentPart (CHR ''.'')" "\<not> isIdentPart (CHR ''('')"
  by (simp_all add: isIdentPart_def isIdentStart_def isDigit_def)

lemma takeWhile_stop:
  "list_all P xs \<Longrightarrow> \<not> P y \<Longrightarrow> takeWhile P (xs @ y # ys) = xs"
  by (induction xs) simp_all

lemma dropWhile_stop:
  "list_all P xs \<Longrightarrow> \<not> P y \<Longrightarrow> dropWhile P (xs @ y # ys) = y # ys"
  by (induction xs) simp_all

lemma tok_space: "tokenize (CHR '' '' # rest) = tokenize rest"
  by (simp add: isSpace_def)

lemma tok_dot: "tokenize (CHR ''.'' # rest) = map_option ((#) TDot) (tokenize rest)"
  by (simp add: isSpace_def isIdentStart_def)

lemma tok_question: "tokenize (CHR ''?'' # rest) = map_option ((#) TQuestion) (tokenize rest)"
  by (simp add: isSpace_def isIdentStart_def)

lemma tok_colon: "tokenize (CHR '':'' # rest) = map_option ((#) TColon) (tokenize rest)"
  by (simp add: isSpace_def isIdentStart_def)

lemma tok_lparen: "tokenize (CHR ''('' # rest) = map_option ((#) TLParen) (tokenize rest)"
  by (simp add: isSpace_def isIdentStart_def)

lemma tok_rparen: "tokenize (CHR '')'' # rest) = map_option ((#) TRParen) (tokenize rest)"
  by (simp add: isSpace_def isIdentStart_def)

lemma tok_stricteq:
  "tokenize (CHR ''='' # CHR ''='' # CHR ''='' # rest) = map_option ((#) TStrictEq) (tokenize rest)"
  by (simp add: isSpace_def isIdentStart_def)

lemma tok_literal:
  assumes "literalOk v"
  shows "tokenize (sq # v @ sq # rest) = map_option ((#) (TStr v)) (tokenize rest)"
proof -
  have p: "list_all (\<lambda>x. x \<noteq> sq) v"
    using assms by (auto simp add: literalOk_def list_all_iff)
  have t: "takeWhile (\<lambda>x. x \<noteq> sq) (v @ sq # rest) = v"
    by (rule takeWhile_stop [OF p]) simp
  have d: "dropWhile (\<lambda>x. x \<noteq> sq) (v @ sq # rest) = sq # rest"
    by (rule dropWhile_stop [OF p]) simp
  from assms show ?thesis
    by (simp add: t d isSpace_def literalOk_def)
qed

lemma tok_identifier:
  assumes "identifierOk f" "\<not> isIdentPart y"
  shows "tokenize (f @ y # rest) = map_option ((#) (TIdent f)) (tokenize (y # rest))"
proof -
  from assms(1) obtain c cs where f: "f = c # cs" and c: "isIdentStart c"
    and cs: "list_all isIdentPart cs"
    by (cases f) (auto simp add: identifierOk_def)
  have t: "takeWhile isIdentPart (cs @ y # rest) = cs"
    by (rule takeWhile_stop [OF cs assms(2)])
  have d: "dropWhile isIdentPart (cs @ y # rest) = y # rest"
    by (rule dropWhile_stop [OF cs assms(2)])
  from isIdentStart_plain [OF c] c show ?thesis
    unfolding f by (simp add: t d del: tokenize.simps(2)) (simp add: t d)
qed

lemma tok_formData:
  "tokenize (CHR ''f'' # CHR ''o'' # CHR ''r'' # CHR ''m'' # CHR ''D'' # CHR ''a'' # CHR ''t''
       # CHR ''a'' # CHR ''.'' # rest)
     = map_option ((@) [TIdent ''formData'', TDot]) (tokenize rest)"
proof -
  have "identifierOk ''formData''"
    by (simp add: identifierOk_def isIdentStart_def isIdentPart_def)
  from tok_identifier [OF this not_identPart(2), of rest] show ?thesis
    by (cases "tokenize rest") (simp_all add: tok_dot del: tokenize.simps)
qed

lemma tok_includes:
  "tokenize (CHR ''.'' # CHR ''i'' # CHR ''n'' # CHR ''c'' # CHR ''l'' # CHR ''u'' # CHR ''d''
       # CHR ''e'' # CHR ''s'' # CHR ''('' # rest)
     = map_option ((@) [TDot, TIdent ''includes'', TLParen]) (tokenize rest)"
proof -
  have "identifierOk ''includes''"
    by (simp add: identifierOk_def isIdentStart_def isIdentPart_def)
  from tok_identifier [OF this not_identPart(3), of rest] show ?thesis
    by (cases "tokenize rest") (simp_all add: tok_dot tok_lparen del: tokenize.simps)
qed

lemmas tok_rules = tok_space tok_dot tok_question tok_colon tok_lparen tok_rparen tok_stricteq
  tok_literal tok_formData tok_includes

lemma tok_equalsClause:
  assumes "identifierOk f" "literalOk (c_value c)" "literalOk (c_nextStepName c)"
  shows "tokenize (equalsClause f c @ '' : '' @ rest)
           = map_option ((@) (equalsTokens f c)) (tokenize rest)"
proof -
  have "tokenize (f @ CHR '' '' # more) = map_option ((#) (TIdent f)) (tokenize more)" for more
    using tok_identifier [OF assms(1) not_identPart(1)] by (simp add: tok_space del: tokenize.simps)
  with assms(2,3) show ?thesis
    by (cases "tokenize rest")
       (simp_all add: equalsClause_def equalsTokens_def tok_rules del: tokenize.simps)
qed

lemma tok_includesClause:
  assumes "identifierOk f" "literalOk (c_value c)" "literalOk (c_nextStepName c)"
  shows "tokenize (includesClause f c @ '' : '' @ rest)
           = map_option ((@) (includesTokens f c)) (tokenize rest)"
proof -
  have "tokenize (f @ CHR ''.'' # CHR ''i'' # CHR ''n'' # CHR ''c'' # CHR ''l'' # CHR ''u''
            # CHR ''d'' # CHR ''e'' # CHR ''s'' # CHR ''('' # more)
          = map_option ((@) [TIdent f, TDot, TIdent ''includes'', TLParen]) (tokenize more)"
    for more
    using tok_identifier [OF assms(1) not_identPart(2)]
    by (cases "tokenize more") (simp_all add: tok_includes del: tokenize.simps)
  with assms(2,3) show ?thesis
    by (cases "tokenize rest")
       (simp_all add: includesClause_def includesTokens_def tok_space tok_question tok_colon
          tok_rparen tok_literal tok_formData del: tokenize.simps)
qed

lemma join_with_tail:
  "xs \<noteq> [] \<Longrightarrow> join sep xs @ sep @ rest = concat (map (\<lambda>x. x @ sep) xs) @ rest"
  by (induction sep xs rule: join.induct) simp_all

lemma tok_chain:
  assumes "\<And>c rest. c \<in> set cs \<Longrightarrow>
             tokenize (render c @ '' : '' @ rest) = map_option ((@) (toks c)) (tokenize rest)"
  shows "tokenize (concat (map (\<lambda>c. render c @ '' : '') cs) @ rest)
           = map_option ((@) (concat (map toks cs))) (tokenize rest)"
  using assms
proof (induction cs)
  case Nil
  show ?case by (cases "tokenize rest") simp_all
next
  case (Cons c cs)
  have "tokenize (concat (map (\<lambda>c. render c @ '' : '') (c # cs)) @ rest)
          = tokenize (render c @ '' : '' @ (concat (map (\<lambda>c. render c @ '' : '') cs) @ rest))"
    by simp
  also have "\<dots> = map_option ((@) (toks c))
                     (tokenize (concat (map (\<lambda>c. render c @ '' : '') cs) @ rest))"
    by (rule Cons.prems) simp
  also have "\<dots> = map_option ((@) (toks c))
                     (map_option ((@) (concat (map toks cs))) (tokenize rest))"
    using Cons.IH Cons.prems by simp
  finally show ?case
    by (cases "tokenize rest") simp_all
qed

lemma tok_final_literal:
  "literalOk d \<Longrightarrow> tokenize (sq # d @ [sq]) = Some [TStr d]"
  using tok_literal [of d "[]"] by simp

subsection \<open>Parsing and evaluating a chain\<close>

text \<open>A test always consumes tokens, so the length guard in \<^verbatim>\<open>parseExpr\<close> never
  rejects anything.\<close>

lemma parseTest_shorter: "parseTest ts = Some (t, rest) \<Longrightarrow> length rest < length ts"
  by (induction ts rule: parseTest.induct)
     (auto split: if_splits list.splits token.splits)

lemma parse_equals_chain:
  "parseExpr (concat (map (equalsTokens f) cs) @ [TStr d])
     = Some (chain (\<lambda>c. TestEquals f (c_value c)) cs d)"
proof (induction cs)
  case Nil
  show ?case by (subst parseExpr.simps) simp
next
  case (Cons c cs)
  show ?case
    by (subst parseExpr.simps) (simp add: equalsTokens_def Cons.IH)
qed

lemma parse_includes_chain:
  "parseExpr (concat (map (includesTokens f) cs) @ [TStr d])
     = Some (chain (\<lambda>c. TestIncludes f (c_value c)) cs d)"
proof (induction cs)
  case Nil
  show ?case by (subst parseExpr.simps) simp
next
  case (Cons c cs)
  show ?case
    by (subst parseExpr.simps) (simp add: includesTokens_def Cons.IH)
qed

lemma eval_equals_chain:
  "evalExpr pd (chain (\<lambda>c. TestEquals f (c_value c)) cs d)
     = Value (case find (\<lambda>c. JStr (c_value c) = pd_get pd f) cs of
                Some c \<Rightarrow> c_nextStepName c | None \<Rightarrow> d)"
  by (induction cs) auto

lemma eval_includes_chain:
  "pd_get pd f = JArr xs \<Longrightarrow>
   evalExpr pd (chain (\<lambda>c. TestIncludes f (c_value c)) cs d)
     = Value (case find (\<lambda>c. arr_includes (selectedValues (pd_get pd f)) (c_value c)) cs of
                Some c \<Rightarrow> c_nextStepName c | None \<Rightarrow> d)"
  by (induction cs) (auto simp add: selectedValues_def)

lemma run_equals_chain:
  assumes "identifierOk f" "cs \<noteq> []"
    and "\<forall>c \<in> set cs. literalOk (c_value c) \<and> literalOk (c_nextStepName c)"
    and "literalOk d"
  shows "runExpression (join '' : '' (map (equalsClause f) cs) @ '' : '' @ [sq] @ d @ [sq]) pd
     = Value (case find (\<lambda>c. JStr (c_value c) = pd_get pd f) cs of
                Some c \<Rightarrow> c_nextStepName c | None \<Rightarrow> d)"
proof -
  have src: "join '' : '' (map (equalsClause f) cs) @ '' : '' @ [sq] @ d @ [sq]
      = concat (map (\<lambda>c. equalsClause f c @ '' : '') cs) @ (sq # d @ [sq])"
    using assms(2) join_with_tail [of "map (equalsClause f) cs" "'' : ''" "[sq] @ d @ [sq]"]
    by (simp add: comp_def)
  have "tokenize (concat (map (\<lambda>c. equalsClause f c @ '' : '') cs) @ (sq # d @ [sq]))
      = map_option ((@) (concat (map (equalsTokens f) cs))) (tokenize (sq # d @ [sq]))"
  proof (rule tok_chain)
    fix c rest
    assume "c \<in> set cs"
    with assms(1,3) show "tokenize (equalsClause f c @ '' : '' @ rest)
        = map_option ((@) (equalsTokens f c)) (tokenize rest)"
      by (intro tok_equalsClause) auto
  qed
  then have "tokenize (concat (map (\<lambda>c. equalsClause f c @ '' : '') cs) @ (sq # d @ [sq]))
      = Some (concat (map (equalsTokens f) cs) @ [TStr d])"
    by (simp add: tok_final_literal [OF assms(4)] del: tokenize.simps)
  then show ?thesis
    unfolding src runExpression_def
    by (simp add: parse_equals_chain eval_equals_chain del: tokenize.simps)
qed

lemma run_includes_chain:
  assumes "identifierOk f" "cs \<noteq> []"
    and "\<forall>c \<in> set cs. literalOk (c_value c) \<and> literalOk (c_nextStepName c)"
    and "literalOk d"
    and "pd_get pd f = JArr xs"
  shows "runExpression (join '' : '' (map (includesClause f) cs) @ '' : '' @ [sq] @ d @ [sq]) pd
     = Value (case find (\<lambda>c. arr_includes (selectedValues (pd_get pd f)) (c_value c)) cs of
                Some c \<Rightarrow> c_nextStepName c | None \<Rightarrow> d)"
proof -
  have src: "join '' : '' (map (includesClause f) cs) @ '' : '' @ [sq] @ d @ [sq]
      = concat (map (\<lambda>c. includesClause f c @ '' : '') cs) @ (sq # d @ [sq])"
    using assms(2) join_with_tail [of "map (includesClause f) cs" "'' : ''" "[sq] @ d @ [sq]"]
    by (simp add: comp_def)
  have "tokenize (concat (map (\<lambda>c. includesClause f c @ '' : '') cs) @ (sq # d @ [sq]))
      = map_option ((@) (concat (map (includesTokens f) cs))) (tokenize (sq # d @ [sq]))"
  proof (rule tok_chain)
    fix c rest
    assume "c \<in> set cs"
    with assms(1,3) show "tokenize (includesClause f c @ '' : '' @ rest)
        = map_option ((@) (includesTokens f c)) (tokenize rest)"
      by (intro tok_includesClause) auto
  qed
  then have "tokenize (concat (map (\<lambda>c. includesClause f c @ '' : '') cs) @ (sq # d @ [sq]))
      = Some (concat (map (includesTokens f) cs) @ [TStr d])"
    by (simp add: tok_final_literal [OF assms(4)] del: tokenize.simps)
  then show ?thesis
    unfolding src runExpression_def
    by (simp add: parse_includes_chain eval_includes_chain [OF assms(5)] del: tokenize.simps)
qed

lemma run_continueLiteral: "runExpression continueLiteral pd = Value ''continue''"
proof -
  have "literalOk ''continue''"
    by (simp add: literalOk_def literalBodyOk_def)
  from tok_final_literal [OF this] show ?thesis
    by (simp add: runExpression_def continueLiteral_def parseExpr.simps del: tokenize.simps)
qed

subsection \<open>Agreement\<close>

text \<open>
  C1 as stated fails: for a rule with no conditions and a default target the builder
  prints \<^verbatim>\<open>'continue'\<close>, while the evaluator goes to the default target.
\<close>

theorem expression_default_only_counterexample:
  "runExpression
      (convertToExpression
         (Some (plainStep ''Page 1'' [plainField ''color'' Radio] (Some defaultOnlyRule)))
         defaultOnlyRule)
      [''color'' \<mapsto> JStr ''Red''] = Value ''continue''
   \<and> decideNavigation True
        (Some (plainStep ''Page 1'' [plainField ''color'' Radio] (Some defaultOnlyRule)))
        [''color'' \<mapsto> JStr ''Red''] = Target ''Page 2''"
  by (simp add: convertToExpression_def defaultOnlyRule_def run_continueLiteral
        decideNavigation_def validateCurrentStep_def plainStep_def plainField_def
        previewCheck_def pd_get_def resolveTarget_def defaultTarget_def str_truthy_def
        opt_str_def Let_def)

text \<open>
  C1, amended. Let the rule of a step name a field of the step, with a field id that is an
  identifier and condition values, step names and default target free of quotes,
  backslashes and line breaks; let the rule have at least one condition, or no default
  target other than \<^verbatim>\<open>continue\<close>; and let the answer of a checkbox driver be a
  sequence. Whenever the next-step evaluator reaches a decision, that is, validation
  passes and the driver's answer is not empty, reading and evaluating the built
  expression against the same answers gives the same target.
\<close>

theorem expression_agrees_with_navigation:
  assumes "s_navigationRule s = Some rule"
    and "findField (Some s) (r_fieldId rule) = Some field"
    and "r_conditions rule \<noteq> [] \<or> defaultTarget rule = ''continue''"
    and "identifierOk (r_fieldId rule)"
    and "\<forall>c \<in> set (r_conditions rule). literalOk (c_value c) \<and> literalOk (c_nextStepName c)"
    and "literalOk (defaultTarget rule)"
    and "f_type field = Checkbox \<longrightarrow> (\<exists>xs. pd_get pd (r_fieldId rule) = JArr xs)"
    and "decideNavigation previewMode (Some s) pd = Target t"
  shows "runExpression (convertToExpression (Some s) rule) pd = Value t"
proof -
  have t: "t = resolveTarget rule field (pd_get pd (r_fieldId rule))"
    using assms(1,2,8)
    by (simp add: decideNavigation_def findField_def Let_def split: if_splits)
  have fid: "r_fieldId rule \<noteq> []"
    using assms(4) by (simp add: identifierOk_def)
  show ?thesis
  proof (cases "r_conditions rule = []")
    case True
    with assms(3) have "t = ''continue''"
      by (simp add: t resolveTarget_def)
    with True show ?thesis
      by (simp add: convertToExpression_def run_continueLiteral)
  next
    case False
    show ?thesis
    proof (cases "f_type field = Checkbox")
      case True
      with assms(7) obtain xs where xs: "pd_get pd (r_fieldId rule) = JArr xs"
        by blast
      have conv: "convertToExpression (Some s) rule
          = join '' : '' (map (includesClause (r_fieldId rule)) (r_conditions rule))
              @ '' : '' @ [sq] @ defaultTarget rule @ [sq]"
        using True False fid assms(2) by (simp add: convertToExpression_def)
      have r: "resolveTarget rule field (pd_get pd (r_fieldId rule))
          = (case find (\<lambda>c. arr_includes (selectedValues (pd_get pd (r_fieldId rule)))
                              (c_value c)) (r_conditions rule) of
               Some c \<Rightarrow> c_nextStepName c | None \<Rightarrow> defaultTarget rule)"
        using True by (simp add: resolveTarget_def)
      show ?thesis
        by (simp only: conv t r run_includes_chain [OF assms(4) False assms(5,6) xs])
    next
      case notCheckbox: False
      have conv: "convertToExpression (Some s) rule
          = join '' : '' (map (equalsClause (r_fieldId rule)) (r_conditions rule))
              @ '' : '' @ [sq] @ defaultTarget rule @ [sq]"
        using notCheckbox False fid assms(2) by (simp add: convertToExpression_def)
      have r: "resolveTarget rule field (pd_get pd (r_fieldId rule))
          = (case find (\<lambda>c. JStr (c_value c) = pd_get pd (r_fieldId rule))
                     (r_conditions rule) of
               Some c \<Rightarrow> c_nextStepName c | None \<Rightarrow> defaultTarget rule)"
        using notCheckbox by (simp add: resolveTarget_def)
      show ?thesis
        by (simp only: conv t r run_equals_chain [OF assms(4) False assms(5,6)])
    qed
  qed
qed

theorem expression_agrees_with_navigation_witness:
  "decideNavigation True
      (Some (plainStep ''Page 1'' [plainField ''color'' Radio] (Some colorRule)))
      [''color'' \<mapsto> JStr ''Red''] = Target ''Page 2''
   \<and> runExpression
      (convertToExpression
         (Some (plainStep ''Page 1'' [plainField ''color'' Radio] (Some colorRule))) colorRule)
      [''color'' \<mapsto> JStr ''Red''] = Value ''Page 2''"
proof -
  let ?s = "plainStep ''Page 1'' [plainField ''color'' Radio] (Some colorRule)"
  let ?pd = "[''color'' \<mapsto> JStr ''Red'']"
  have a1: "s_navigationRule ?s = Some colorRule"
    by (simp add: plainStep_def)
  have a2: "findField (Some ?s) (r_fieldId colorRule) = Some (plainField ''color'' Radio)"
    by (simp add: findField_def plainStep_def plainField_def colorRule_def)
  have a3: "r_conditions colorRule \<noteq> [] \<or> defaultTarget colorRule = ''continue''"
    by (simp add: colorRule_def)
  have a4: "identifierOk (r_fieldId colorRule)"
    by (simp add: identifierOk_def colorRule_def isIdentStart_def isIdentPart_def)
  have a5: "\<forall>c \<in> set (r_conditions colorRule). literalOk (c_value c) \<and> literalOk (c_nextStepName c)"
    by (simp add: colorRule_def literalOk_def literalBodyOk_def)
  have a6: "literalOk (defaultTarget colorRule)"
    by (simp add: colorRule_def defaultTarget_def str_truthy_def opt_str_def literalOk_def
          literalBodyOk_def)
  have a7: "f_type (plainField ''color'' Radio) = Checkbox
              \<longrightarrow> (\<exists>xs. pd_get ?pd (r_fieldId colorRule) = JArr xs)"
    by (simp add: plainField_def)
  have a8: "decideNavigation True (Some ?s) ?pd = Target ''Page 2''"
    by (simp add: decideNavigation_def validateCurrentStep_def plainStep_def plainField_def
          previewCheck_def pd_get_def resolveTarget_def colorRule_def Let_def)
  from a8 expression_agrees_with_navigation [OF a1 a2 a3 a4 a5 a6 a7 a8] show ?thesis
    by simp
qed

text \<open>The other hypotheses are needed as well. With no answer the evaluator does not
  decide, while the expression has a value; for a checkbox driver with no answer the
  expression raises a TypeError; and a quote inside a name makes the printed text
  something other than the intended expression.\<close>

lemma expression_without_answer:
  "decideNavigation True
      (Some (plainStep ''Page 1'' [plainField ''color'' Radio] (Some colorRule))) Map.empty
     = Incomplete
   \<and> runExpression
      (convertToExpression
         (Some (plainStep ''Page 1'' [plainField ''color'' Radio] (Some colorRule))) colorRule)
      Map.empty = Value ''continue''"
  by code_simp

lemma expression_checkbox_without_answer:
  "runExpression
      (convertToExpression
         (Some (plainStep ''Page 1'' [plainField ''color'' Checkbox] (Some colorRule))) colorRule)
      Map.empty = RuntimeTypeError"
  by code_simp

lemma expression_with_quote:
  "runExpression
      (convertToExpression
         (Some (plainStep ''Page 1'' [plainField ''color'' Radio]
            (Some (colorRule\<lparr>r_defaultStepName := Some (''Bob'' @ [sq] @ ''s page'')\<rparr>))))
         (colorRule\<lparr>r_defaultStepName := Some (''Bob'' @ [sq] @ ''s page'')\<rparr>))
      [''color'' \<mapsto> JStr ''Blue''] = SyntaxError"
  by code_simp

end
